theory Spec2Isabelle
  imports Main
begin

section \<open>Community feed: data model\<close>

text \<open>
  The rows of \<^verbatim>\<open>feed/models.py\<close>. A primary key or foreign key is a natural
  number, a timestamp is an integer number of microseconds, and an \<^verbatim>\<open>IntegerField\<close>
  or \<^verbatim>\<open>PositiveIntegerField\<close> holds an unbounded integer (the constraint of the
  latter, that the value is not negative, is checked where the views write the field).
  A table is the list of its rows in insertion order.
\<close>

record user =
  u_id :: nat
  u_username :: string
  u_avatar :: string
  u_total_karma :: int

record post =
  p_id :: nat
  p_author_id :: nat
  p_content :: string
  p_likes_count :: int
  p_created_at :: int

record comment =
  c_id :: nat
  c_post_id :: nat
  c_parent_id :: "nat option"
  c_author_id :: nat
  c_content :: string
  c_likes_count :: int
  c_created_at :: int

datatype target_type = TARGET_POST | TARGET_COMMENT

record like =
  l_user_id :: nat
  l_target_type :: target_type
  l_target_id :: nat

datatype reason = REASON_POST_LIKE | REASON_COMMENT_LIKE

record karma_transaction =
  k_user_id :: nat
  k_amount :: int
  k_reason :: reason
  k_source_id :: nat
  k_liker_id :: "nat option"
  k_created_at :: int

record db =
  db_users :: "user list"
  db_posts :: "post list"
  db_comments :: "comment list"
  db_likes :: "like list"
  db_karma_transactions :: "karma_transaction list"

section \<open>The comment tree builder\<close>

text \<open>
  \<^verbatim>\<open>build_comment_tree(comments, user, user_liked_ids)\<close> of \<^verbatim>\<open>feed/views.py\<close>
  mutates the comment objects of its input: it gives each one the attributes
  \<^verbatim>\<open>_prefetched_replies\<close> and \<^verbatim>\<open>_liked_by_user\<close>, and returns the list of
  root objects. An object is identified here by its position in the input list, the
  two attributes are functions of that position, and the returned roots are a list of
  positions.
\<close>

record comment_tree =
  root_comments :: "nat list"
  prefetched_replies :: "nat \<Rightarrow> nat list"
  liked_by_user :: "nat \<Rightarrow> bool"

text \<open>First pass: \<^verbatim>\<open>comment_map[comment.id] = comment\<close>; a later comment with the
  same id replaces an earlier one, as the dictionary assignment does.\<close>

definition comment_map_of :: "comment list \<Rightarrow> (nat \<rightharpoonup> nat)" where
  "comment_map_of comments =
     foldl (\<lambda>m ic. m(c_id (snd ic) \<mapsto> fst ic)) Map.empty (enumerate 0 comments)"

definition first_pass :: "comment list \<Rightarrow> nat set \<Rightarrow> comment_tree" where
  "first_pass comments user_liked_ids =
     \<lparr> root_comments = [],
       prefetched_replies = (\<lambda>i. []),
       liked_by_user = (\<lambda>i. i < length comments \<and> c_id (comments ! i) \<in> user_liked_ids) \<rparr>"

text \<open>One iteration of the second pass. A comment without a parent id is appended to
  the roots; otherwise the parent is looked up with \<^verbatim>\<open>comment_map.get\<close> and the
  comment is appended to the parent's replies \<^verbatim>\<open>if parent:\<close>, and nothing happens
  when the lookup gives \<^verbatim>\<open>None\<close>.\<close>

definition attach :: "(nat \<rightharpoonup> nat) \<Rightarrow> comment_tree \<Rightarrow> nat \<times> comment \<Rightarrow> comment_tree" where
  "attach comment_map t ic =
     (case c_parent_id (snd ic) of
        None \<Rightarrow> t\<lparr>root_comments := root_comments t @ [fst ic]\<rparr>
      | Some pid \<Rightarrow>
          (case comment_map pid of
             Some parent \<Rightarrow>
               t\<lparr>prefetched_replies :=
                   (prefetched_replies t)(parent := prefetched_replies t parent @ [fst ic])\<rparr>
           | None \<Rightarrow> t))"

definition build_comment_tree :: "comment list \<Rightarrow> nat set \<Rightarrow> comment_tree" where
  "build_comment_tree comments user_liked_ids =
     foldl (attach (comment_map_of comments))
           (first_pass comments user_liked_ids) (enumerate 0 comments)"

section \<open>The store\<close>

text \<open>
  What the views use of the object-relational mapper. \<^verbatim>\<open>Model.objects.get(pk=...)\<close>
  raises \<^verbatim>\<open>DoesNotExist\<close> when no row has the key; \<^verbatim>\<open>Like.objects.create\<close> raises
  \<^verbatim>\<open>IntegrityError\<close> when the triple of \<^verbatim>\<open>unique_together\<close> is already there;
  writing a negative value into a \<^verbatim>\<open>PositiveIntegerField\<close> is rejected by the store
  (modelled as \<^verbatim>\<open>IntegrityError\<close>); a new row gets a primary key that no row of
  its table has.
\<close>

datatype exn =
    Post_DoesNotExist
  | Comment_DoesNotExist
  | User_DoesNotExist
  | IntegrityError
  | FieldDoesNotExist
  | TypeError

definition next_pk :: "nat list \<Rightarrow> nat" where
  "next_pk pks = Suc (foldr max pks 0)"

definition get_user :: "nat \<Rightarrow> db \<Rightarrow> user option" where
  "get_user pk d = find (\<lambda>u. u_id u = pk) (db_users d)"

definition get_post :: "nat \<Rightarrow> db \<Rightarrow> post option" where
  "get_post pk d = find (\<lambda>p. p_id p = pk) (db_posts d)"

definition get_comment :: "nat \<Rightarrow> db \<Rightarrow> comment option" where
  "get_comment pk d = find (\<lambda>c. c_id c = pk) (db_comments d)"

definition is_like :: "nat \<Rightarrow> target_type \<Rightarrow> nat \<Rightarrow> like \<Rightarrow> bool" where
  "is_like user tt tid l \<longleftrightarrow> l_user_id l = user \<and> l_target_type l = tt \<and> l_target_id l = tid"

definition like_exists :: "nat \<Rightarrow> target_type \<Rightarrow> nat \<Rightarrow> db \<Rightarrow> bool" where
  "like_exists user tt tid d = list_ex (is_like user tt tid) (db_likes d)"

definition like_first :: "nat \<Rightarrow> target_type \<Rightarrow> nat \<Rightarrow> db \<Rightarrow> like option" where
  "like_first user tt tid d = find (is_like user tt tid) (db_likes d)"

definition like_create :: "nat \<Rightarrow> target_type \<Rightarrow> nat \<Rightarrow> db \<Rightarrow> exn + db" where
  "like_create user tt tid d =
     (if like_exists user tt tid d then Inl IntegrityError
      else Inr (d\<lparr>db_likes := db_likes d @
                  [\<lparr>l_user_id = user, l_target_type = tt, l_target_id = tid\<rparr>]\<rparr>))"

definition like_delete :: "like \<Rightarrow> db \<Rightarrow> db" where
  "like_delete l d = d\<lparr>db_likes := remove1 l (db_likes d)\<rparr>"

text \<open>\<^verbatim>\<open>Post.objects.filter(pk=pk).update(likes_count=F('likes_count') + n)\<close>: every
  row with the key is rewritten in place; no row at all is not an error.\<close>

definition update_post_likes_count :: "nat \<Rightarrow> int \<Rightarrow> db \<Rightarrow> exn + db" where
  "update_post_likes_count pk n d =
     (if list_ex (\<lambda>p. p_id p = pk \<and> p_likes_count p + n < 0) (db_posts d)
      then Inl IntegrityError
      else Inr (d\<lparr>db_posts :=
                  map (\<lambda>p. if p_id p = pk then p\<lparr>p_likes_count := p_likes_count p + n\<rparr> else p)
                      (db_posts d)\<rparr>))"

definition update_comment_likes_count :: "nat \<Rightarrow> int \<Rightarrow> db \<Rightarrow> exn + db" where
  "update_comment_likes_count pk n d =
     (if list_ex (\<lambda>c. c_id c = pk \<and> c_likes_count c + n < 0) (db_comments d)
      then Inl IntegrityError
      else Inr (d\<lparr>db_comments :=
                  map (\<lambda>c. if c_id c = pk then c\<lparr>c_likes_count := c_likes_count c + n\<rparr> else c)
                      (db_comments d)\<rparr>))"

definition update_user_total_karma :: "nat \<Rightarrow> int \<Rightarrow> db \<Rightarrow> exn + db" where
  "update_user_total_karma pk n d =
     (if list_ex (\<lambda>u. u_id u = pk \<and> u_total_karma u + n < 0) (db_users d)
      then Inl IntegrityError
      else Inr (d\<lparr>db_users :=
                  map (\<lambda>u. if u_id u = pk then u\<lparr>u_total_karma := u_total_karma u + n\<rparr> else u)
                      (db_users d)\<rparr>))"

definition karma_transaction_create :: "karma_transaction \<Rightarrow> db \<Rightarrow> db" where
  "karma_transaction_create t d = d\<lparr>db_karma_transactions := db_karma_transactions d @ [t]\<rparr>"

section \<open>Requests, responses and the current user\<close>

text \<open>
  A request carries the primary key of its authenticated user, if it has one
  (\<^verbatim>\<open>request.user and request.user.is_authenticated\<close>), and the fields of
  \<^verbatim>\<open>request.data\<close> that the views read, each absent or present.
\<close>

record request =
  req_user :: "nat option"
  req_content :: "string option"
  req_post :: "nat option"
  req_parent :: "nat option"

text \<open>The responses of the views: the status code with what the body says.\<close>

datatype response =
    Unauthorized
  | NotFound
  | AlreadyLiked
  | LikeNotFound
  | BadRequest
  | Liked int int
  | Unliked int
  | Created nat
  | ServerError exn

text \<open>
  \<^verbatim>\<open>Unauthorized\<close> is status 401 with \<^verbatim>\<open>Authentication required\<close>;
  \<^verbatim>\<open>NotFound\<close> is 404; \<^verbatim>\<open>AlreadyLiked\<close> and \<^verbatim>\<open>LikeNotFound\<close> are status 400 with
  \<^verbatim>\<open>Already liked this post\<close> (or comment) and \<^verbatim>\<open>Like not found\<close>;
  \<^verbatim>\<open>BadRequest\<close> is any other 400; \<^verbatim>\<open>Liked likes karma_awarded\<close> and
  \<^verbatim>\<open>Unliked likes\<close> are the two success bodies; \<^verbatim>\<open>Created pk\<close> is 201 with the new
  row; \<^verbatim>\<open>ServerError e\<close> is an exception that no handler of the view catches.
\<close>

definition demo_user :: "nat \<Rightarrow> user" where
  "demo_user pk =
     \<lparr>u_id = pk, u_username = ''demo_user'',
      u_avatar = ''https://api.dicebear.com/7.x/avataaars/svg?seed=demo'',
      u_total_karma = 100\<rparr>"

text \<open>\<^verbatim>\<open>User.objects.get_or_create(username='demo_user', defaults=...)\<close>.\<close>

definition get_or_create_demo_user :: "db \<Rightarrow> user \<times> db" where
  "get_or_create_demo_user d =
     (case find (\<lambda>u. u_username u = ''demo_user'') (db_users d) of
        Some u \<Rightarrow> (u, d)
      | None \<Rightarrow>
          (let u = demo_user (next_pk (map u_id (db_users d)))
           in (u, d\<lparr>db_users := db_users d @ [u]\<rparr>)))"

text \<open>
  \<^verbatim>\<open>_get_current_user(request)\<close>, the same in both view sets. The source returns a
  user object on both paths; the result is an option here so that the test
  \<^verbatim>\<open>if not user\<close> of the views has its branch. The user is given by its key.
\<close>

definition get_current_user :: "request \<Rightarrow> db \<Rightarrow> nat option \<times> db" where
  "get_current_user request d =
     (case req_user request of
        Some pk \<Rightarrow> (Some pk, d)
      | None \<Rightarrow> (case get_or_create_demo_user d of (u, d') \<Rightarrow> (Some (u_id u), d')))"

section \<open>Like and unlike\<close>

text \<open>
  The body of \<^verbatim>\<open>with transaction.atomic()\<close> in \<^verbatim>\<open>PostViewSet.like\<close>: \<^verbatim>\<open>Inl\<close> is an
  exception leaving the block, which rolls the unit of work back, and \<^verbatim>\<open>Inr\<close> a
  response returned from inside it with the store as committed. \<^verbatim>\<open>now\<close> is the
  clock that gives the new transaction its \<^verbatim>\<open>created_at\<close>.
\<close>

definition like_post_atomic :: "int \<Rightarrow> nat \<Rightarrow> nat \<Rightarrow> db \<Rightarrow> exn + response \<times> db" where
  "like_post_atomic now user pk d =
     (case get_post pk d of
        None \<Rightarrow> Inl Post_DoesNotExist
      | Some post \<Rightarrow>
          if like_exists user TARGET_POST (p_id post) d then Inr (AlreadyLiked, d)
          else
            (case like_create user TARGET_POST (p_id post) d of
               Inl e \<Rightarrow> Inl e
             | Inr d1 \<Rightarrow>
            (case update_post_likes_count pk 1 d1 of
               Inl e \<Rightarrow> Inl e
             | Inr d2 \<Rightarrow>
            (case get_user (p_author_id post) d2 of
               None \<Rightarrow> Inl User_DoesNotExist
             | Some author \<Rightarrow>
            (case update_user_total_karma (p_author_id post) 5
                    (karma_transaction_create
                       \<lparr>k_user_id = u_id author, k_amount = 5, k_reason = REASON_POST_LIKE,
                        k_source_id = p_id post, k_liker_id = Some user,
                        k_created_at = now\<rparr> d2) of
               Inl e \<Rightarrow> Inl e
             | Inr d3 \<Rightarrow>
            (case get_post (p_id post) d3 of
               None \<Rightarrow> Inl Post_DoesNotExist
             | Some post' \<Rightarrow> Inr (Liked (p_likes_count post') 5, d3)))))))"

definition PostViewSet_like :: "int \<Rightarrow> request \<Rightarrow> nat \<Rightarrow> db \<Rightarrow> response \<times> db" where
  "PostViewSet_like now request pk d =
     (case get_current_user request d of
        (None, d0) \<Rightarrow> (Unauthorized, d0)
      | (Some user, d0) \<Rightarrow>
          (case like_post_atomic now user pk d0 of
             Inr rd \<Rightarrow> rd
           | Inl e \<Rightarrow>
               (if e = Post_DoesNotExist then (NotFound, d0)
                else if e = IntegrityError then (AlreadyLiked, d0)
                else (ServerError e, d0))))"

definition unlike_post_atomic :: "nat \<Rightarrow> nat \<Rightarrow> db \<Rightarrow> exn + response \<times> db" where
  "unlike_post_atomic user pk d =
     (case get_post pk d of
        None \<Rightarrow> Inl Post_DoesNotExist
      | Some post \<Rightarrow>
          (case like_first user TARGET_POST (p_id post) d of
             None \<Rightarrow> Inr (LikeNotFound, d)
           | Some like \<Rightarrow>
          (case update_post_likes_count pk (- 1) (like_delete like d) of
             Inl e \<Rightarrow> Inl e
           | Inr d2 \<Rightarrow>
          (case get_post (p_id post) d2 of
             None \<Rightarrow> Inl Post_DoesNotExist
           | Some post' \<Rightarrow> Inr (Unliked (p_likes_count post'), d2)))))"

definition PostViewSet_unlike :: "request \<Rightarrow> nat \<Rightarrow> db \<Rightarrow> response \<times> db" where
  "PostViewSet_unlike request pk d =
     (case get_current_user request d of
        (None, d0) \<Rightarrow> (Unauthorized, d0)
      | (Some user, d0) \<Rightarrow>
          (case unlike_post_atomic user pk d0 of
             Inr rd \<Rightarrow> rd
           | Inl e \<Rightarrow>
               (if e = Post_DoesNotExist then (NotFound, d0)
                else (ServerError e, d0))))"

definition like_comment_atomic :: "int \<Rightarrow> nat \<Rightarrow> nat \<Rightarrow> db \<Rightarrow> exn + response \<times> db" where
  "like_comment_atomic now user pk d =
     (case get_comment pk d of
        None \<Rightarrow> Inl Comment_DoesNotExist
      | Some comment \<Rightarrow>
          if like_exists user TARGET_COMMENT (c_id comment) d then Inr (AlreadyLiked, d)
          else
            (case like_create user TARGET_COMMENT (c_id comment) d of
               Inl e \<Rightarrow> Inl e
             | Inr d1 \<Rightarrow>
            (case update_comment_likes_count pk 1 d1 of
               Inl e \<Rightarrow> Inl e
             | Inr d2 \<Rightarrow>
            (case get_user (c_author_id comment) d2 of
               None \<Rightarrow> Inl User_DoesNotExist
             | Some author \<Rightarrow>
            (case update_user_total_karma (c_author_id comment) 1
                    (karma_transaction_create
                       \<lparr>k_user_id = u_id author, k_amount = 1, k_reason = REASON_COMMENT_LIKE,
                        k_source_id = c_id comment, k_liker_id = Some user,
                        k_created_at = now\<rparr> d2) of
               Inl e \<Rightarrow> Inl e
             | Inr d3 \<Rightarrow>
            (case get_comment (c_id comment) d3 of
               None \<Rightarrow> Inl Comment_DoesNotExist
             | Some comment' \<Rightarrow> Inr (Liked (c_likes_count comment') 1, d3)))))))"

definition CommentViewSet_like :: "int \<Rightarrow> request \<Rightarrow> nat \<Rightarrow> db \<Rightarrow> response \<times> db" where
  "CommentViewSet_like now request pk d =
     (case get_current_user request d of
        (None, d0) \<Rightarrow> (Unauthorized, d0)
      | (Some user, d0) \<Rightarrow>
          (case like_comment_atomic now user pk d0 of
             Inr rd \<Rightarrow> rd
           | Inl e \<Rightarrow>
               (if e = Comment_DoesNotExist then (NotFound, d0)
                else if e = IntegrityError then (AlreadyLiked, d0)
                else (ServerError e, d0))))"

definition unlike_comment_atomic :: "nat \<Rightarrow> nat \<Rightarrow> db \<Rightarrow> exn + response \<times> db" where
  "unlike_comment_atomic user pk d =
     (case get_comment pk d of
        None \<Rightarrow> Inl Comment_DoesNotExist
      | Some comment \<Rightarrow>
          (case like_first user TARGET_COMMENT (c_id comment) d of
             None \<Rightarrow> Inr (LikeNotFound, d)
           | Some like \<Rightarrow>
          (case update_comment_likes_count pk (- 1) (like_delete like d) of
             Inl e \<Rightarrow> Inl e
           | Inr d2 \<Rightarrow>
          (case get_comment (c_id comment) d2 of
             None \<Rightarrow> Inl Comment_DoesNotExist
           | Some comment' \<Rightarrow> Inr (Unliked (c_likes_count comment'), d2)))))"

definition CommentViewSet_unlike :: "request \<Rightarrow> nat \<Rightarrow> db \<Rightarrow> response \<times> db" where
  "CommentViewSet_unlike request pk d =
     (case get_current_user request d of
        (None, d0) \<Rightarrow> (Unauthorized, d0)
      | (Some user, d0) \<Rightarrow>
          (case unlike_comment_atomic user pk d0 of
             Inr rd \<Rightarrow> rd
           | Inl e \<Rightarrow>
               (if e = Comment_DoesNotExist then (NotFound, d0)
                else (ServerError e, d0))))"

section \<open>Creating posts and comments\<close>

text \<open>Python's \<^verbatim>\<open>str.strip()\<close>, on the whitespace characters of ASCII.\<close>

definition isspace :: "char \<Rightarrow> bool" where
  "isspace c \<longleftrightarrow>
     c \<in> set [CHR 0x20, CHR 0x09, CHR 0x0A, CHR 0x0B, CHR 0x0C, CHR 0x0D,
              CHR 0x1C, CHR 0x1D, CHR 0x1E, CHR 0x1F]"

definition strip :: "string \<Rightarrow> string" where
  "strip s = rev (dropWhile isspace (rev (dropWhile isspace s)))"

text \<open>\<^verbatim>\<open>PostCreateSerializer.validate_content\<close>; \<^verbatim>\<open>None\<close> is its
  \<^verbatim>\<open>ValidationError\<close>.\<close>

definition validate_content :: "string \<Rightarrow> string option" where
  "validate_content v =
     (if length (strip v) < 1 then None
      else if length v > 2000 then None
      else Some (strip v))"

text \<open>
  \<^verbatim>\<open>serializer.is_valid()\<close> for a post: the field \<^verbatim>\<open>content\<close> is required, is
  trimmed, must not be blank and is bounded by the \<^verbatim>\<open>max_length\<close> of the model
  field, and then goes through \<^verbatim>\<open>validate_content\<close>.
\<close>

definition PostCreateSerializer_is_valid :: "request \<Rightarrow> string option" where
  "PostCreateSerializer_is_valid request =
     (case req_content request of
        None \<Rightarrow> None
      | Some raw \<Rightarrow>
          (let v = strip raw
           in if v = [] then None
              else if length v > 2000 then None
              else validate_content v))"

definition PostViewSet_create :: "int \<Rightarrow> request \<Rightarrow> db \<Rightarrow> response \<times> db" where
  "PostViewSet_create now request d =
     (case get_current_user request d of
        (None, d0) \<Rightarrow> (Unauthorized, d0)
      | (Some user, d0) \<Rightarrow>
          (case PostCreateSerializer_is_valid request of
             Some content \<Rightarrow>
               (let pk = next_pk (map p_id (db_posts d0))
                in (Created pk,
                    d0\<lparr>db_posts := db_posts d0 @
                         [\<lparr>p_id = pk, p_author_id = user, p_content = content,
                           p_likes_count = 0, p_created_at = now\<rparr>]\<rparr>))
           | None \<Rightarrow> (BadRequest, d0)))"

text \<open>\<^verbatim>\<open>Comment.objects.create(post=..., author=..., content=..., parent=...)\<close>.\<close>

definition comment_create :: "int \<Rightarrow> nat \<Rightarrow> nat \<Rightarrow> string \<Rightarrow> nat option \<Rightarrow> db \<Rightarrow> nat \<times> db" where
  "comment_create now post_pk author content parent d =
     (let pk = next_pk (map c_id (db_comments d))
      in (pk,
          d\<lparr>db_comments := db_comments d @
               [\<lparr>c_id = pk, c_post_id = post_pk, c_parent_id = parent, c_author_id = author,
                 c_content = content, c_likes_count = 0, c_created_at = now\<rparr>]\<rparr>))"

text \<open>
  The \<^verbatim>\<open>POST\<close> branch of \<^verbatim>\<open>PostViewSet.comments\<close>. It runs outside any unit of
  work, so the comment it creates stays when the statement after it fails; and that
  statement, an update of \<^verbatim>\<open>comments_count\<close>, names a field that the model
  \<^verbatim>\<open>Post\<close> does not have.
\<close>

definition PostViewSet_comments_post :: "int \<Rightarrow> request \<Rightarrow> nat \<Rightarrow> db \<Rightarrow> response \<times> db" where
  "PostViewSet_comments_post now request pk d =
     (case get_post pk d of
        None \<Rightarrow> (NotFound, d)
      | Some post \<Rightarrow>
          (case get_current_user request d of
             (None, d0) \<Rightarrow> (Unauthorized, d0)
           | (Some user, d0) \<Rightarrow>
               (let content = strip (case req_content request of None \<Rightarrow> [] | Some c \<Rightarrow> c);
                    parent_id = req_parent request
                in if content = [] then (BadRequest, d0)
                   else if parent_id \<noteq> None \<and> parent_id \<noteq> Some 0 \<and>
                           find (\<lambda>c. Some (c_id c) = parent_id \<and> c_post_id c = p_id post)
                                (db_comments d0) = None
                   then (BadRequest, d0)
                   else (ServerError FieldDoesNotExist,
                         snd (comment_create now (p_id post) user content
                                (if parent_id = Some 0 then None else parent_id) d0)))))"

text \<open>
  \<^verbatim>\<open>CommentCreateSerializer.validate_parent\<close>, called with the parent comment that
  the field found: \<^verbatim>\<open>int(post_id)\<close> raises when the request has no \<^verbatim>\<open>post\<close>.
\<close>

definition validate_parent :: "request \<Rightarrow> comment \<Rightarrow> exn + bool" where
  "validate_parent request v =
     (case req_post request of
        None \<Rightarrow> Inl TypeError
      | Some post_id \<Rightarrow> Inr (c_post_id v = post_id))"

text \<open>
  \<^verbatim>\<open>CommentViewSet.create\<close>. The serializer checks its fields in the order
  \<^verbatim>\<open>post\<close>, \<^verbatim>\<open>parent\<close>, \<^verbatim>\<open>content\<close>: the post must exist, a parent that is given
  must exist and pass \<^verbatim>\<open>validate_parent\<close>, the content is trimmed, not blank and
  at most 1000 characters.
\<close>

definition CommentViewSet_create :: "int \<Rightarrow> request \<Rightarrow> db \<Rightarrow> response \<times> db" where
  "CommentViewSet_create now request d =
     (case get_current_user request d of
        (None, d0) \<Rightarrow> (Unauthorized, d0)
      | (Some user, d0) \<Rightarrow>
          (let post_ok = (case req_post request of
                            None \<Rightarrow> False
                          | Some post_pk \<Rightarrow> get_post post_pk d0 \<noteq> None);
               parent_ok = (case req_parent request of
                              None \<Rightarrow> Inr True
                            | Some parent_pk \<Rightarrow>
                                (case get_comment parent_pk d0 of
                                   None \<Rightarrow> Inr False
                                 | Some parent \<Rightarrow> validate_parent request parent));
               content = strip (case req_content request of None \<Rightarrow> [] | Some c \<Rightarrow> c);
               content_ok = (content \<noteq> [] \<and> length content \<le> 1000)
           in case parent_ok of
                Inl e \<Rightarrow> (ServerError e, d0)
              | Inr ok \<Rightarrow>
                  (case req_post request of
                     None \<Rightarrow> (BadRequest, d0)
                   | Some post_pk \<Rightarrow>
                       if post_ok \<and> ok \<and> content_ok
                       then (case comment_create now post_pk user content
                                    (req_parent request) d0 of
                               (pk, d1) \<Rightarrow> (Created pk, d1))
                       else (BadRequest, d0))))"

section \<open>The leaderboard\<close>

definition timedelta_hours :: "int \<Rightarrow> int" where
  "timedelta_hours h = h * 3600000000"

text \<open>SQL's \<^verbatim>\<open>SUM\<close> is null over no rows, and \<^verbatim>\<open>COALESCE\<close> replaces null.\<close>

definition Sum :: "int list \<Rightarrow> int option" where
  "Sum xs = (if xs = [] then None else Some (sum_list xs))"

definition Coalesce :: "'a option \<Rightarrow> 'a \<Rightarrow> 'a" where
  "Coalesce v d = (case v of None \<Rightarrow> d | Some x \<Rightarrow> x)"

text \<open>The annotation \<^verbatim>\<open>karma_24h=Coalesce(Sum('amount'), 0)\<close> of the group of one
  \<^verbatim>\<open>user_id\<close>, over the rows that passed the filter on \<^verbatim>\<open>created_at\<close>.\<close>

definition karma_24h :: "karma_transaction list \<Rightarrow> nat \<Rightarrow> int" where
  "karma_24h rows user_id =
     Coalesce (Sum (map k_amount (filter (\<lambda>t. k_user_id t = user_id) rows))) 0"

text \<open>
  The query \<^verbatim>\<open>leaderboard_data\<close> of \<^verbatim>\<open>LeaderboardView.get\<close>: filter on
  \<^verbatim>\<open>created_at\<close>, group by \<^verbatim>\<open>user_id\<close>, annotate, keep the positive sums, order by
  the sum descending, first five. The order of the groups before sorting, which decides
  between equal sums, is the store's; here it is the order of each recipient's last
  transaction, and the sort is stable.
\<close>

definition leaderboard_data :: "int \<Rightarrow> db \<Rightarrow> (nat \<times> int) list" where
  "leaderboard_data now d =
     (let twenty_four_hours_ago = now - timedelta_hours 24;
          rows = filter (\<lambda>t. twenty_four_hours_ago \<le> k_created_at t)
                        (db_karma_transactions d);
          groups = map (\<lambda>u. (u, karma_24h rows u)) (remdups (map k_user_id rows))
      in take 5 (sort_key (\<lambda>e. - snd e) (filter (\<lambda>e. 0 < snd e) groups)))"

record leaderboard_entry =
  le_user :: user
  le_karma_24h :: int
  le_rank :: nat

text \<open>\<^verbatim>\<open>{u.id: u for u in User.objects.filter(id__in=user_ids)}\<close>.\<close>

definition users_by_id :: "nat list \<Rightarrow> db \<Rightarrow> (nat \<rightharpoonup> user)" where
  "users_by_id user_ids d =
     foldl (\<lambda>m u. m(u_id u \<mapsto> u)) Map.empty
           (filter (\<lambda>u. u_id u \<in> set user_ids) (db_users d))"

definition LeaderboardView_get :: "int \<Rightarrow> db \<Rightarrow> leaderboard_entry list" where
  "LeaderboardView_get now d =
     (let data = leaderboard_data now d;
          user_ids = map fst data;
          users = users_by_id user_ids d
      in List.map_filter
           (\<lambda>re. case users (fst (snd re)) of
                    Some user \<Rightarrow>
                      Some \<lparr>le_user = user, le_karma_24h = snd (snd re), le_rank = fst re\<rparr>
                  | None \<Rightarrow> None)
           (enumerate 1 data))"

section \<open>Sequences of calls\<close>

text \<open>
  The two routes \<^verbatim>\<open>posts/<pk>/like/\<close> and \<^verbatim>\<open>comments/<pk>/like/\<close> of
  \<^verbatim>\<open>feed/urls.py\<close> as one operation on a target, and likewise for unlike.
\<close>

definition like_target :: "int \<Rightarrow> request \<Rightarrow> target_type \<Rightarrow> nat \<Rightarrow> db \<Rightarrow> response \<times> db" where
  "like_target now request tt pk d =
     (case tt of
        TARGET_POST \<Rightarrow> PostViewSet_like now request pk d
      | TARGET_COMMENT \<Rightarrow> CommentViewSet_like now request pk d)"

definition unlike_target :: "request \<Rightarrow> target_type \<Rightarrow> nat \<Rightarrow> db \<Rightarrow> response \<times> db" where
  "unlike_target request tt pk d =
     (case tt of
        TARGET_POST \<Rightarrow> PostViewSet_unlike request pk d
      | TARGET_COMMENT \<Rightarrow> CommentViewSet_unlike request pk d)"

datatype op =
    CreatePost
  | CreateComment nat
  | CommentCreate
  | Like target_type nat
  | Unlike target_type nat

record call =
  call_now :: int
  call_request :: request
  call_op :: op

definition step :: "call \<Rightarrow> db \<Rightarrow> response \<times> db" where
  "step c d =
     (case call_op c of
        CreatePost \<Rightarrow> PostViewSet_create (call_now c) (call_request c) d
      | CreateComment pk \<Rightarrow> PostViewSet_comments_post (call_now c) (call_request c) pk d
      | CommentCreate \<Rightarrow> CommentViewSet_create (call_now c) (call_request c) d
      | Like tt pk \<Rightarrow> like_target (call_now c) (call_request c) tt pk d
      | Unlike tt pk \<Rightarrow> unlike_target (call_request c) tt pk d)"

text \<open>Running calls one after the other, keeping each call with its response.\<close>

fun run :: "call list \<Rightarrow> db \<Rightarrow> (call \<times> response) list \<times> db" where
  "run [] d = ([], d)"
| "run (c # cs) d =
     (case step c d of
        (r, d1) \<Rightarrow> (case run cs d1 of (trace, d2) \<Rightarrow> ((c, r) # trace, d2)))"

section \<open>The effect of a like and of an unlike\<close>

text \<open>The store after a successful like of a post by \<^verbatim>\<open>user\<close>, and after the
  deletion of the like row \<^verbatim>\<open>l\<close> by a successful unlike.\<close>

definition post_liked :: "int \<Rightarrow> nat \<Rightarrow> post \<Rightarrow> db \<Rightarrow> db" where
  "post_liked now user post d =
     d\<lparr>db_likes := db_likes d @
          [\<lparr>l_user_id = user, l_target_type = TARGET_POST, l_target_id = p_id post\<rparr>],
       db_posts :=
          map (\<lambda>x. if p_id x = p_id post then x\<lparr>p_likes_count := p_likes_count x + 1\<rparr> else x)
              (db_posts d),
       db_karma_transactions := db_karma_transactions d @
          [\<lparr>k_user_id = p_author_id post, k_amount = 5, k_reason = REASON_POST_LIKE,
            k_source_id = p_id post, k_liker_id = Some user, k_created_at = now\<rparr>],
       db_users :=
          map (\<lambda>u. if u_id u = p_author_id post
                    then u\<lparr>u_total_karma := u_total_karma u + 5\<rparr> else u)
              (db_users d)\<rparr>"

definition post_unliked :: "like \<Rightarrow> nat \<Rightarrow> db \<Rightarrow> db" where
  "post_unliked l pk d =
     d\<lparr>db_likes := remove1 l (db_likes d),
       db_posts :=
          map (\<lambda>x. if p_id x = pk then x\<lparr>p_likes_count := p_likes_count x + (- 1)\<rparr> else x)
              (db_posts d)\<rparr>"

text \<open>The store after a successful like of a comment by \<^verbatim>\<open>user\<close>, and after the
  deletion of the like row \<^verbatim>\<open>l\<close> by a successful unlike.\<close>

definition comment_liked :: "int \<Rightarrow> nat \<Rightarrow> comment \<Rightarrow> db \<Rightarrow> db" where
  "comment_liked now user comment d =
     d\<lparr>db_likes := db_likes d @
          [\<lparr>l_user_id = user, l_target_type = TARGET_COMMENT, l_target_id = c_id comment\<rparr>],
       db_comments :=
          map (\<lambda>x. if c_id x = c_id comment then x\<lparr>c_likes_count := c_likes_count x + 1\<rparr> else x)
              (db_comments d),
       db_karma_transactions := db_karma_transactions d @
          [\<lparr>k_user_id = c_author_id comment, k_amount = 1, k_reason = REASON_COMMENT_LIKE,
            k_source_id = c_id comment, k_liker_id = Some user, k_created_at = now\<rparr>],
       db_users :=
          map (\<lambda>u. if u_id u = c_author_id comment
                    then u\<lparr>u_total_karma := u_total_karma u + 1\<rparr> else u)
              (db_users d)\<rparr>"

definition comment_unliked :: "like \<Rightarrow> nat \<Rightarrow> db \<Rightarrow> db" where
  "comment_unliked l pk d =
     d\<lparr>db_likes := remove1 l (db_likes d),
       db_comments :=
          map (\<lambda>x. if c_id x = pk then x\<lparr>c_likes_count := c_likes_count x + (- 1)\<rparr> else x)
              (db_comments d)\<rparr>"

section \<open>What is observed of the store\<close>

definition likes_count :: "target_type \<Rightarrow> nat \<Rightarrow> db \<Rightarrow> int option" where
  "likes_count tt pk d =
     (case tt of
        TARGET_POST \<Rightarrow> map_option p_likes_count (get_post pk d)
      | TARGET_COMMENT \<Rightarrow> map_option c_likes_count (get_comment pk d))"

definition target_author :: "target_type \<Rightarrow> nat \<Rightarrow> db \<Rightarrow> nat option" where
  "target_author tt pk d =
     (case tt of
        TARGET_POST \<Rightarrow> map_option p_author_id (get_post pk d)
      | TARGET_COMMENT \<Rightarrow> map_option c_author_id (get_comment pk d))"

definition total_karma :: "nat \<Rightarrow> db \<Rightarrow> int option" where
  "total_karma pk d = map_option u_total_karma (get_user pk d)"

text \<open>The constraint of the \<^verbatim>\<open>PositiveIntegerField\<close>s: no counter of the store is
  negative.\<close>

definition positive_fields :: "db \<Rightarrow> bool" where
  "positive_fields d \<longleftrightarrow>
     list_all (\<lambda>u. 0 \<le> u_total_karma u) (db_users d) \<and>
     list_all (\<lambda>p. 0 \<le> p_likes_count p) (db_posts d) \<and>
     list_all (\<lambda>c. 0 \<le> c_likes_count c) (db_comments d)"

text \<open>The like rows of one target, and the sum of the ledger for one recipient.\<close>

definition like_rows :: "target_type \<Rightarrow> nat \<Rightarrow> db \<Rightarrow> like list" where
  "like_rows tt pk d = filter (\<lambda>l. l_target_type l = tt \<and> l_target_id l = pk) (db_likes d)"

definition karma_sum :: "nat \<Rightarrow> db \<Rightarrow> int" where
  "karma_sum user_id d =
     sum_list (map k_amount (filter (\<lambda>t. k_user_id t = user_id) (db_karma_transactions d)))"

text \<open>The calls of a trace that created, and that deleted, a like row of one target.\<close>

definition like_creates :: "target_type \<Rightarrow> nat \<Rightarrow> (call \<times> response) list \<Rightarrow> nat" where
  "like_creates tt pk trace =
     length (filter (\<lambda>cr. call_op (fst cr) = Like tt pk \<and>
                           (case snd cr of Liked likes karma \<Rightarrow> True | _ \<Rightarrow> False)) trace)"

definition like_deletes :: "target_type \<Rightarrow> nat \<Rightarrow> (call \<times> response) list \<Rightarrow> nat" where
  "like_deletes tt pk trace =
     length (filter (\<lambda>cr. call_op (fst cr) = Unlike tt pk \<and>
                           (case snd cr of Unliked likes \<Rightarrow> True | _ \<Rightarrow> False)) trace)"

section \<open>What is observed of the leaderboard\<close>

text \<open>
  The claim's words for the karma of an actor: the sum of the amounts of the
  transactions that credit the actor and are not older than 24 hours.
\<close>

definition window_karma :: "int \<Rightarrow> db \<Rightarrow> nat \<Rightarrow> int" where
  "window_karma now d user_id =
     sum_list (map k_amount
       (filter (\<lambda>t. k_user_id t = user_id \<and> now - timedelta_hours 24 \<le> k_created_at t)
               (db_karma_transactions d)))"

text \<open>The sequence of (actor, karma, rank) that the leaderboard view returns.\<close>

definition leaderboard_rows :: "int \<Rightarrow> db \<Rightarrow> (nat \<times> int \<times> nat) list" where
  "leaderboard_rows now d =
     map (\<lambda>e. (u_id (le_user e), le_karma_24h e, le_rank e)) (LeaderboardView_get now d)"

text \<open>The foreign key \<^verbatim>\<open>KarmaTransaction.user\<close>: the recipient of every transaction is a
  row of the users.\<close>

definition recipients_exist :: "db \<Rightarrow> bool" where
  "recipients_exist d \<longleftrightarrow>
     list_all (\<lambda>t. get_user (k_user_id t) d \<noteq> None) (db_karma_transactions d)"

section \<open>Example data\<close>

text \<open>
  Two users, a post of the first and a comment of the second on it, nobody has liked
  anything yet. A request of the second user, and a request without a user.
\<close>

definition example_db :: db where
  "example_db =
     \<lparr>db_users =
        [\<lparr>u_id = 1, u_username = ''alice'', u_avatar = [], u_total_karma = 0\<rparr>,
         \<lparr>u_id = 2, u_username = ''bob'', u_avatar = [], u_total_karma = 10\<rparr>],
      db_posts =
        [\<lparr>p_id = 1, p_author_id = 1, p_content = ''hello'', p_likes_count = 0,
          p_created_at = 100\<rparr>],
      db_comments =
        [\<lparr>c_id = 1, c_post_id = 1, c_parent_id = None, c_author_id = 2, c_content = ''hi'',
          c_likes_count = 0, c_created_at = 200\<rparr>],
      db_likes = [],
      db_karma_transactions = []\<rparr>"

definition bob_request :: request where
  "bob_request = \<lparr>req_user = Some 2, req_content = None, req_post = None, req_parent = None\<rparr>"

definition anonymous_request :: request where
  "anonymous_request =
     \<lparr>req_user = None, req_content = None, req_post = None, req_parent = None\<rparr>"

text \<open>The example after the second user has liked the post at time 1000.\<close>

definition example_db_liked :: db where
  "example_db_liked =
     \<lparr>db_users =
        [\<lparr>u_id = 1, u_username = ''alice'', u_avatar = [], u_total_karma = 5\<rparr>,
         \<lparr>u_id = 2, u_username = ''bob'', u_avatar = [], u_total_karma = 10\<rparr>],
      db_posts =
        [\<lparr>p_id = 1, p_author_id = 1, p_content = ''hello'', p_likes_count = 1,
          p_created_at = 100\<rparr>],
      db_comments =
        [\<lparr>c_id = 1, c_post_id = 1, c_parent_id = None, c_author_id = 2, c_content = ''hi'',
          c_likes_count = 0, c_created_at = 200\<rparr>],
      db_likes = [\<lparr>l_user_id = 2, l_target_type = TARGET_POST, l_target_id = 1\<rparr>],
      db_karma_transactions =
        [\<lparr>k_user_id = 1, k_amount = 5, k_reason = REASON_POST_LIKE, k_source_id = 1,
          k_liker_id = Some 2, k_created_at = 1000\<rparr>]\<rparr>"

text \<open>The example after the second user has then unliked the post.\<close>

definition example_db_unliked :: db where
  "example_db_unliked =
     \<lparr>db_users =
        [\<lparr>u_id = 1, u_username = ''alice'', u_avatar = [], u_total_karma = 5\<rparr>,
         \<lparr>u_id = 2, u_username = ''bob'', u_avatar = [], u_total_karma = 10\<rparr>],
      db_posts =
        [\<lparr>p_id = 1, p_author_id = 1, p_content = ''hello'', p_likes_count = 0,
          p_created_at = 100\<rparr>],
      db_comments =
        [\<lparr>c_id = 1, c_post_id = 1, c_parent_id = None, c_author_id = 2, c_content = ''hi'',
          c_likes_count = 0, c_created_at = 200\<rparr>],
      db_likes = [],
      db_karma_transactions =
        [\<lparr>k_user_id = 1, k_amount = 5, k_reason = REASON_POST_LIKE, k_source_id = 1,
          k_liker_id = Some 2, k_created_at = 1000\<rparr>]\<rparr>"

text \<open>A request of the first user, and the example after the first user has liked the
  comment of the second at time 1500.\<close>

definition alice_request :: request where
  "alice_request =
     \<lparr>req_user = Some 1, req_content = None, req_post = None, req_parent = None\<rparr>"

definition example_db_comment_liked :: db where
  "example_db_comment_liked =
     \<lparr>db_users =
        [\<lparr>u_id = 1, u_username = ''alice'', u_avatar = [], u_total_karma = 0\<rparr>,
         \<lparr>u_id = 2, u_username = ''bob'', u_avatar = [], u_total_karma = 11\<rparr>],
      db_posts =
        [\<lparr>p_id = 1, p_author_id = 1, p_content = ''hello'', p_likes_count = 0,
          p_created_at = 100\<rparr>],
      db_comments =
        [\<lparr>c_id = 1, c_post_id = 1, c_parent_id = None, c_author_id = 2, c_content = ''hi'',
          c_likes_count = 1, c_created_at = 200\<rparr>],
      db_likes = [\<lparr>l_user_id = 1, l_target_type = TARGET_COMMENT, l_target_id = 1\<rparr>],
      db_karma_transactions =
        [\<lparr>k_user_id = 2, k_amount = 1, k_reason = REASON_COMMENT_LIKE, k_source_id = 1,
          k_liker_id = Some 1, k_created_at = 1500\<rparr>]\<rparr>"

text \<open>The same call with the user of its request replaced by an authenticated one.\<close>

definition call_as :: "nat \<Rightarrow> call \<Rightarrow> call" where
  "call_as user c = c\<lparr>call_request := (call_request c)\<lparr>req_user := Some user\<rparr>\<rparr>"

text \<open>The example after a request without a user has liked the post at time 1000: the
  demo user has been created, with the next key, and is the liker.\<close>

definition example_db_demo_liked :: db where
  "example_db_demo_liked =
     \<lparr>db_users =
        [\<lparr>u_id = 1, u_username = ''alice'', u_avatar = [], u_total_karma = 5\<rparr>,
         \<lparr>u_id = 2, u_username = ''bob'', u_avatar = [], u_total_karma = 10\<rparr>,
         \<lparr>u_id = 3, u_username = ''demo_user'',
           u_avatar = ''https://api.dicebear.com/7.x/avataaars/svg?seed=demo'',
           u_total_karma = 100\<rparr>],
      db_posts =
        [\<lparr>p_id = 1, p_author_id = 1, p_content = ''hello'', p_likes_count = 1,
          p_created_at = 100\<rparr>],
      db_comments =
        [\<lparr>c_id = 1, c_post_id = 1, c_parent_id = None, c_author_id = 2, c_content = ''hi'',
          c_likes_count = 0, c_created_at = 200\<rparr>],
      db_likes = [\<lparr>l_user_id = 3, l_target_type = TARGET_POST, l_target_id = 1\<rparr>],
      db_karma_transactions =
        [\<lparr>k_user_id = 1, k_amount = 5, k_reason = REASON_POST_LIKE, k_source_id = 1,
          k_liker_id = Some 3, k_created_at = 1000\<rparr>]\<rparr>"

text \<open>A call without a user that likes the post, one that creates a post, and the
  example after the latter: the content is stored trimmed, under the demo user.\<close>

definition anonymous_like :: call where
  "anonymous_like =
     \<lparr>call_now = 1000, call_request = anonymous_request, call_op = Like TARGET_POST 1\<rparr>"

definition anonymous_post :: call where
  "anonymous_post =
     \<lparr>call_now = 1000,
      call_request = \<lparr>req_user = None, req_content = Some '' news '', req_post = None,
                       req_parent = None\<rparr>,
      call_op = CreatePost\<rparr>"

definition example_db_demo_posted :: db where
  "example_db_demo_posted =
     \<lparr>db_users =
        [\<lparr>u_id = 1, u_username = ''alice'', u_avatar = [], u_total_karma = 0\<rparr>,
         \<lparr>u_id = 2, u_username = ''bob'', u_avatar = [], u_total_karma = 10\<rparr>,
         \<lparr>u_id = 3, u_username = ''demo_user'',
           u_avatar = ''https://api.dicebear.com/7.x/avataaars/svg?seed=demo'',
           u_total_karma = 100\<rparr>],
      db_posts =
        [\<lparr>p_id = 1, p_author_id = 1, p_content = ''hello'', p_likes_count = 0,
          p_created_at = 100\<rparr>,
         \<lparr>p_id = 2, p_author_id = 3, p_content = ''news'', p_likes_count = 0,
          p_created_at = 1000\<rparr>],
      db_comments =
        [\<lparr>c_id = 1, c_post_id = 1, c_parent_id = None, c_author_id = 2, c_content = ''hi'',
          c_likes_count = 0, c_created_at = 200\<rparr>],
      db_likes = [],
      db_karma_transactions = []\<rparr>"

text \<open>
  Seven calls on the example: the second user likes the post, the first user likes the
  comment, the second user likes the post again, unlikes it, and unlikes it again;
  then the second user likes the comment, which is his own, and the first user unlikes
  it. With them the responses they get, and the store they leave.
\<close>

definition example_calls :: "call list" where
  "example_calls =
     [\<lparr>call_now = 1000, call_request = bob_request, call_op = Like TARGET_POST 1\<rparr>,
      \<lparr>call_now = 1500, call_request = alice_request, call_op = Like TARGET_COMMENT 1\<rparr>,
      \<lparr>call_now = 2000, call_request = bob_request, call_op = Like TARGET_POST 1\<rparr>,
      \<lparr>call_now = 2500, call_request = bob_request, call_op = Unlike TARGET_POST 1\<rparr>,
      \<lparr>call_now = 3000, call_request = bob_request, call_op = Unlike TARGET_POST 1\<rparr>,
      \<lparr>call_now = 3500, call_request = bob_request, call_op = Like TARGET_COMMENT 1\<rparr>,
      \<lparr>call_now = 4000, call_request = alice_request, call_op = Unlike TARGET_COMMENT 1\<rparr>]"

definition example_trace :: "(call \<times> response) list" where
  "example_trace =
     zip example_calls
       [Liked 1 5, Liked 1 1, AlreadyLiked, Unliked 0, LikeNotFound, Liked 2 1, Unliked 1]"

definition example_db_final :: db where
  "example_db_final =
     \<lparr>db_users =
        [\<lparr>u_id = 1, u_username = ''alice'', u_avatar = [], u_total_karma = 5\<rparr>,
         \<lparr>u_id = 2, u_username = ''bob'', u_avatar = [], u_total_karma = 12\<rparr>],
      db_posts =
        [\<lparr>p_id = 1, p_author_id = 1, p_content = ''hello'', p_likes_count = 0,
          p_created_at = 100\<rparr>],
      db_comments =
        [\<lparr>c_id = 1, c_post_id = 1, c_parent_id = None, c_author_id = 2, c_content = ''hi'',
          c_likes_count = 1, c_created_at = 200\<rparr>],
      db_likes = [\<lparr>l_user_id = 2, l_target_type = TARGET_COMMENT, l_target_id = 1\<rparr>],
      db_karma_transactions =
        [\<lparr>k_user_id = 1, k_amount = 5, k_reason = REASON_POST_LIKE, k_source_id = 1,
          k_liker_id = Some 2, k_created_at = 1000\<rparr>,
         \<lparr>k_user_id = 2, k_amount = 1, k_reason = REASON_COMMENT_LIKE, k_source_id = 1,
          k_liker_id = Some 1, k_created_at = 1500\<rparr>,
         \<lparr>k_user_id = 2, k_amount = 1, k_reason = REASON_COMMENT_LIKE, k_source_id = 1,
          k_liker_id = Some 2, k_created_at = 3500\<rparr>]\<rparr>"

text \<open>
  The leaderboard example of \<^verbatim>\<open>feed/tests.py\<close>, at the time of 100 hours. A
  transaction is given by its recipient, its amount and its age in hours. The first
  user has five of 5 at the ages 0 to 4; the second has three of 5 at the ages 1 to 3
  and fifteen of 1 at the ages 0 to 14; the third has two of 5 at the ages 1 and 2 and
  ten of 5 at the ages 30 to 39. A fourth user, not in the test, has one of 5 at the
  age of 50. The cached \<^verbatim>\<open>total_karma\<close> of the users is 1000, 500, 2000 and 0.
\<close>

definition karma_at :: "nat \<Rightarrow> int \<Rightarrow> int \<Rightarrow> karma_transaction" where
  "karma_at user amount age =
     \<lparr>k_user_id = user, k_amount = amount,
      k_reason = (if amount = 5 then REASON_POST_LIKE else REASON_COMMENT_LIKE),
      k_source_id = 0, k_liker_id = None, k_created_at = timedelta_hours (100 - age)\<rparr>"

definition leaderboard_example :: db where
  "leaderboard_example =
     \<lparr>db_users =
        [\<lparr>u_id = 1, u_username = ''user1'', u_avatar = [], u_total_karma = 1000\<rparr>,
         \<lparr>u_id = 2, u_username = ''user2'', u_avatar = [], u_total_karma = 500\<rparr>,
         \<lparr>u_id = 3, u_username = ''user3'', u_avatar = [], u_total_karma = 2000\<rparr>,
         \<lparr>u_id = 4, u_username = ''user4'', u_avatar = [], u_total_karma = 0\<rparr>],
      db_posts = [],
      db_comments = [],
      db_likes = [],
      db_karma_transactions =
        map (karma_at 1 5) [0, 1, 2, 3, 4] @
        map (karma_at 2 5) [1, 2, 3] @
        map (karma_at 2 1) [0, 1, 2, 3, 4, 5, 6, 7, 8, 9, 10, 11, 12, 13, 14] @
        map (karma_at 3 5) [1, 2] @
        map (karma_at 3 5) [30, 31, 32, 33, 34, 35, 36, 37, 38, 39] @
        [karma_at 4 5 50]\<rparr>"

text \<open>The same store with other values of \<^verbatim>\<open>total_karma\<close>.\<close>

definition leaderboard_example_recached :: db where
  "leaderboard_example_recached =
     leaderboard_example
       \<lparr>db_users :=
          [\<lparr>u_id = 1, u_username = ''user1'', u_avatar = [], u_total_karma = 0\<rparr>,
           \<lparr>u_id = 2, u_username = ''user2'', u_avatar = [], u_total_karma = 7\<rparr>,
           \<lparr>u_id = 3, u_username = ''user3'', u_avatar = [], u_total_karma = 1\<rparr>,
           \<lparr>u_id = 4, u_username = ''user4'', u_avatar = [], u_total_karma = 90000\<rparr>]\<rparr>"

text \<open>
  Eight recipients at the time of 100 hours: the first seven each have one transaction
  of the age 0, of 5, 10, 15, 20, 25, 30 and 35; the eighth has one of 5 and one of
  \<open>- 5\<close>.
\<close>

definition cap_example :: db where
  "cap_example =
     \<lparr>db_users =
        map (\<lambda>i. \<lparr>u_id = i, u_username = ''user'', u_avatar = [], u_total_karma = 0\<rparr>)
            [1, 2, 3, 4, 5, 6, 7, 8],
      db_posts = [],
      db_comments = [],
      db_likes = [],
      db_karma_transactions =
        [karma_at 1 5 0, karma_at 2 10 0, karma_at 3 15 0, karma_at 4 20 0, karma_at 5 25 0,
         karma_at 6 30 0, karma_at 7 35 0, karma_at 8 5 0, karma_at 8 (- 5) 0]\<rparr>"

text \<open>A root comment, a reply to it, and a comment whose parent, 7, is not among them.\<close>

definition orphan_example :: "comment list" where
  "orphan_example =
     [\<lparr>c_id = 1, c_post_id = 1, c_parent_id = None, c_author_id = 1, c_content = ''root'',
        c_likes_count = 0, c_created_at = 10\<rparr>,
      \<lparr>c_id = 2, c_post_id = 1, c_parent_id = Some 1, c_author_id = 1, c_content = ''reply'',
        c_likes_count = 0, c_created_at = 20\<rparr>,
      \<lparr>c_id = 3, c_post_id = 1, c_parent_id = Some 7, c_author_id = 1, c_content = ''orphan'',
        c_likes_count = 0, c_created_at = 30\<rparr>]"

section \<open>Properties of the comment tree builder\<close>

lemma root_comments_foldl:
  "root_comments (foldl (attach m) t (enumerate n cs)) =
     root_comments t @ map fst (filter (\<lambda>ic. c_parent_id (snd ic) = None) (enumerate n cs))"
  by (induction cs arbitrary: t n) (auto simp: attach_def split: option.splits)

lemma comment_map_foldl_other:
  "pid \<notin> c_id ` set cs \<Longrightarrow>
   foldl (\<lambda>m ic. m(c_id (snd ic) \<mapsto> fst ic)) m0 (enumerate n cs) pid = m0 pid"
  by (induction cs arbitrary: m0 n) auto

lemma comment_map_of_None: "pid \<notin> c_id ` set cs \<Longrightarrow> comment_map_of cs pid = None"
  unfolding comment_map_of_def by (simp add: comment_map_foldl_other)

lemma replies_attach:
  "i \<in> set (prefetched_replies (attach m t (k, c)) j) \<Longrightarrow>
     i \<in> set (prefetched_replies t j) \<or>
     (i = k \<and> (\<exists>pid. c_parent_id c = Some pid \<and> m pid = Some j))"
  by (auto simp: attach_def split: option.splits if_splits)

lemma replies_foldl:
  "i \<in> set (prefetched_replies (foldl (attach m) t (enumerate n cs)) j) \<Longrightarrow>
     i \<in> set (prefetched_replies t j) \<or>
     (\<exists>pid. n \<le> i \<and> i < n + length cs \<and> c_parent_id (cs ! (i - n)) = Some pid \<and>
            m pid = Some j)"
proof (induction cs arbitrary: t n)
  case Nil
  then show ?case by simp
next
  case (Cons c cs)
  from Cons.prems
  have "i \<in> set (prefetched_replies
                  (foldl (attach m) (attach m t (n, c)) (enumerate (Suc n) cs)) j)"
    by simp
  from Cons.IH[OF this] show ?case
  proof
    assume "i \<in> set (prefetched_replies (attach m t (n, c)) j)"
    from replies_attach[OF this] show ?thesis by auto
  next
    assume "\<exists>pid. Suc n \<le> i \<and> i < Suc n + length cs \<and>
                 c_parent_id (cs ! (i - Suc n)) = Some pid \<and> m pid = Some j"
    then obtain pid where p: "Suc n \<le> i" "i < Suc n + length cs"
        "c_parent_id (cs ! (i - Suc n)) = Some pid" "m pid = Some j"
      by blast
    then have "(c # cs) ! (i - n) = cs ! (i - Suc n)"
      by (simp add: nth_Cons')
    with p show ?thesis by auto
  qed
qed

lemma root_comments_build:
  "root_comments (build_comment_tree cs liked) =
     map fst (filter (\<lambda>ic. c_parent_id (snd ic) = None) (enumerate 0 cs))"
  by (simp add: build_comment_tree_def root_comments_foldl first_pass_def)

text \<open>
  C1, as the code has it. A comment whose parent id is set but is the id of no comment
  of the input is skipped by the second pass: it is not among the returned roots and
  not among the replies of any comment, so it is absent from the tree.
\<close>

theorem orphan_comment_is_dropped:
  assumes "i < length cs"
    and "c_parent_id (cs ! i) = Some pid"
    and "pid \<notin> c_id ` set cs"
  shows "i \<notin> set (root_comments (build_comment_tree cs liked)) \<and>
         i \<notin> set (prefetched_replies (build_comment_tree cs liked) j)"
proof
  show "i \<notin> set (root_comments (build_comment_tree cs liked))"
  proof
    assume "i \<in> set (root_comments (build_comment_tree cs liked))"
    then obtain c where "(i, c) \<in> set (enumerate 0 cs)" "c_parent_id c = None"
      by (auto simp: root_comments_build)
    then have "c_parent_id (cs ! i) = None"
      by (simp add: in_set_enumerate_eq)
    with assms(2) show False by simp
  qed
next
  show "i \<notin> set (prefetched_replies (build_comment_tree cs liked) j)"
  proof
    assume "i \<in> set (prefetched_replies (build_comment_tree cs liked) j)"
    then have "i \<in> set (prefetched_replies (first_pass cs liked) j) \<or>
        (\<exists>p. 0 \<le> i \<and> i < 0 + length cs \<and> c_parent_id (cs ! (i - 0)) = Some p \<and>
             comment_map_of cs p = Some j)"
      unfolding build_comment_tree_def by (rule replies_foldl)
    then obtain p where "c_parent_id (cs ! i) = Some p" "comment_map_of cs p = Some j"
      by (auto simp: first_pass_def)
    with assms(2) have "comment_map_of cs pid = Some j" by simp
    with comment_map_of_None[OF assms(3)] show False by simp
  qed
qed

theorem orphan_comment_is_dropped_witness:
  "2 < length orphan_example \<and> c_parent_id (orphan_example ! 2) = Some 7 \<and>
   7 \<notin> c_id ` set orphan_example \<and>
   2 \<notin> set (root_comments (build_comment_tree orphan_example {})) \<and>
   2 \<notin> set (prefetched_replies (build_comment_tree orphan_example {}) 0)"
proof -
  have h1: "2 < length orphan_example" by (simp add: orphan_example_def)
  have h2: "c_parent_id (orphan_example ! 2) = Some 7" by (simp add: orphan_example_def)
  have h3: "7 \<notin> c_id ` set orphan_example" by (simp add: orphan_example_def)
  from orphan_comment_is_dropped[OF h1 h2 h3, of "{}" 0] h1 h2 h3 show ?thesis by simp
qed

text \<open>
  C1 as the specification states it fails: in the example the third comment names a
  parent that is not in the list, and the returned roots are the first comment alone.
\<close>

theorem orphan_promoted_counterexample:
  "c_parent_id (orphan_example ! 2) = Some 7 \<and> 7 \<notin> c_id ` set orphan_example \<and>
   root_comments (build_comment_tree orphan_example {}) = [0] \<and>
   2 \<notin> set (root_comments (build_comment_tree orphan_example {}))"
  by (simp add: orphan_example_def root_comments_build)

section \<open>Like and unlike in closed form\<close>

lemma find_map_key:
  "(\<And>x. key (f x) = key x) \<Longrightarrow>
   find (\<lambda>x. key x = k) (map f xs) = map_option f (find (\<lambda>x. key x = k) xs)"
  by (induction xs) auto

lemma find_key: "find (\<lambda>x. key x = k) xs = Some y \<Longrightarrow> key y = k \<and> y \<in> set xs"
  by (induction xs) (auto split: if_splits)

lemma get_user_id: "get_user pk d = Some u \<Longrightarrow> u_id u = pk"
  unfolding get_user_def by (drule find_key) simp

lemma like_create_Inr:
  "like_create user tt tid d = Inr d1 \<longleftrightarrow>
     \<not> like_exists user tt tid d \<and>
     d1 = d\<lparr>db_likes := db_likes d @
              [\<lparr>l_user_id = user, l_target_type = tt, l_target_id = tid\<rparr>]\<rparr>"
  by (auto simp: like_create_def)

lemma get_post_id: "get_post pk d = Some x \<Longrightarrow> p_id x = pk"
  unfolding get_post_def by (drule find_key) simp

lemma like_post_atomic_eq:
  "like_post_atomic now user pk d =
     (case get_post pk d of
        None \<Rightarrow> Inl Post_DoesNotExist
      | Some post \<Rightarrow>
          if like_exists user TARGET_POST pk d then Inr (AlreadyLiked, d)
          else if list_ex (\<lambda>x. p_id x = pk \<and> p_likes_count x + 1 < 0) (db_posts d)
          then Inl IntegrityError
          else (case get_user (p_author_id post) d of
                  None \<Rightarrow> Inl User_DoesNotExist
                | Some author \<Rightarrow>
                    if list_ex (\<lambda>u. u_id u = p_author_id post \<and> u_total_karma u + 5 < 0)
                               (db_users d)
                    then Inl IntegrityError
                    else Inr (Liked (p_likes_count post + 1) 5, post_liked now user post d)))"
proof (cases "get_post pk d")
  case None
  then show ?thesis by (simp add: like_post_atomic_def)
next
  case (Some post)
  then have pid: "p_id post = pk" by (rule get_post_id)
  show ?thesis
  proof (cases "like_exists user TARGET_POST pk d")
    case True
    with Some pid show ?thesis by (simp add: like_post_atomic_def)
  next
    case nl: False
    let ?d1 = "d\<lparr>db_likes := db_likes d @
                 [\<lparr>l_user_id = user, l_target_type = TARGET_POST, l_target_id = pk\<rparr>]\<rparr>"
    have d1: "like_create user TARGET_POST pk d = Inr ?d1"
      using nl by (simp add: like_create_Inr)
    show ?thesis
    proof (cases "list_ex (\<lambda>x. p_id x = pk \<and> p_likes_count x + 1 < 0) (db_posts d)")
      case True
      then have "update_post_likes_count pk 1 ?d1 = Inl IntegrityError"
        by (simp add: update_post_likes_count_def)
      with Some pid nl d1 True show ?thesis by (simp add: like_post_atomic_def)
    next
      case ok2: False
      let ?d2 = "?d1\<lparr>db_posts :=
                     map (\<lambda>x. if p_id x = pk then x\<lparr>p_likes_count := p_likes_count x + 1\<rparr> else x)
                         (db_posts d)\<rparr>"
      have d2: "update_post_likes_count pk 1 ?d1 = Inr ?d2"
        using ok2 by (simp add: update_post_likes_count_def)
      have gu2: "get_user k ?d2 = get_user k d" for k by (simp add: get_user_def)
      show ?thesis
      proof (cases "get_user (p_author_id post) d")
        case None
        with Some pid nl d1 d2 ok2 gu2 show ?thesis by (simp add: like_post_atomic_def)
      next
        case au: (Some author)
        have aid: "u_id author = p_author_id post" using au by (rule get_user_id)
        let ?t = "\<lparr>k_user_id = p_author_id post, k_amount = 5, k_reason = REASON_POST_LIKE,
            k_source_id = pk, k_liker_id = Some user, k_created_at = now\<rparr>"
        let ?d2k = "karma_transaction_create ?t ?d2"
        show ?thesis
        proof (cases "list_ex (\<lambda>u. u_id u = p_author_id post \<and> u_total_karma u + 5 < 0)
                              (db_users d)")
          case True
          then have "update_user_total_karma (p_author_id post) 5 ?d2k = Inl IntegrityError"
            by (simp add: update_user_total_karma_def karma_transaction_create_def)
          with Some pid nl d1 d2 ok2 gu2 au aid True show ?thesis
            by (simp add: like_post_atomic_def)
        next
          case ok3: False
          have d3: "update_user_total_karma (p_author_id post) 5 ?d2k =
                      Inr (post_liked now user post d)"
            using ok3 pid
            by (simp add: update_user_total_karma_def karma_transaction_create_def post_liked_def)
          have gp3: "get_post pk (post_liked now user post d) =
                       Some (post\<lparr>p_likes_count := p_likes_count post + 1\<rparr>)"
            using Some pid by (simp add: get_post_def post_liked_def find_map_key)
          from Some pid nl d1 d2 ok2 gu2 au aid ok3 d3 gp3 show ?thesis
            by (simp add: like_post_atomic_def)
        qed
      qed
    qed
  qed
qed

lemma unlike_post_atomic_eq:
  "unlike_post_atomic user pk d =
     (case get_post pk d of
        None \<Rightarrow> Inl Post_DoesNotExist
      | Some post \<Rightarrow>
          (case like_first user TARGET_POST pk d of
             None \<Rightarrow> Inr (LikeNotFound, d)
           | Some l \<Rightarrow>
               if list_ex (\<lambda>x. p_id x = pk \<and> p_likes_count x + (- 1) < 0) (db_posts d)
               then Inl IntegrityError
               else Inr (Unliked (p_likes_count post + (- 1)), post_unliked l pk d)))"
proof (cases "get_post pk d")
  case None
  then show ?thesis by (simp add: unlike_post_atomic_def)
next
  case (Some post)
  then have pid: "p_id post = pk" by (rule get_post_id)
  show ?thesis
  proof (cases "like_first user TARGET_POST pk d")
    case None
    with Some pid show ?thesis by (simp add: unlike_post_atomic_def)
  next
    case lk: (Some l)
    show ?thesis
    proof (cases "list_ex (\<lambda>x. p_id x = pk \<and> p_likes_count x + (- 1) < 0) (db_posts d)")
      case True
      then have "update_post_likes_count pk (- 1) (like_delete l d) = Inl IntegrityError"
        by (simp add: update_post_likes_count_def like_delete_def)
      with Some pid lk True show ?thesis by (simp add: unlike_post_atomic_def)
    next
      case False
      then have d2: "update_post_likes_count pk (- 1) (like_delete l d) =
                       Inr (post_unliked l pk d)"
        by (simp add: update_post_likes_count_def like_delete_def post_unliked_def)
      have gp: "get_post pk (post_unliked l pk d) =
                  Some (post\<lparr>p_likes_count := p_likes_count post + (- 1)\<rparr>)"
        using Some pid by (simp add: get_post_def post_unliked_def find_map_key)
      from Some pid lk False d2 gp show ?thesis by (simp add: unlike_post_atomic_def)
    qed
  qed
qed

lemma get_comment_id: "get_comment pk d = Some x \<Longrightarrow> c_id x = pk"
  unfolding get_comment_def by (drule find_key) simp

lemma like_comment_atomic_eq:
  "like_comment_atomic now user pk d =
     (case get_comment pk d of
        None \<Rightarrow> Inl Comment_DoesNotExist
      | Some comment \<Rightarrow>
          if like_exists user TARGET_COMMENT pk d then Inr (AlreadyLiked, d)
          else if list_ex (\<lambda>x. c_id x = pk \<and> c_likes_count x + 1 < 0) (db_comments d)
          then Inl IntegrityError
          else (case get_user (c_author_id comment) d of
                  None \<Rightarrow> Inl User_DoesNotExist
                | Some author \<Rightarrow>
                    if list_ex (\<lambda>u. u_id u = c_author_id comment \<and> u_total_karma u + 1 < 0)
                               (db_users d)
                    then Inl IntegrityError
                    else Inr (Liked (c_likes_count comment + 1) 1, comment_liked now user comment d)))"
proof (cases "get_comment pk d")
  case None
  then show ?thesis by (simp add: like_comment_atomic_def)
next
  case (Some comment)
  then have pid: "c_id comment = pk" by (rule get_comment_id)
  show ?thesis
  proof (cases "like_exists user TARGET_COMMENT pk d")
    case True
    with Some pid show ?thesis by (simp add: like_comment_atomic_def)
  next
    case nl: False
    let ?d1 = "d\<lparr>db_likes := db_likes d @
                 [\<lparr>l_user_id = user, l_target_type = TARGET_COMMENT, l_target_id = pk\<rparr>]\<rparr>"
    have d1: "like_create user TARGET_COMMENT pk d = Inr ?d1"
      using nl by (simp add: like_create_Inr)
    show ?thesis
    proof (cases "list_ex (\<lambda>x. c_id x = pk \<and> c_likes_count x + 1 < 0) (db_comments d)")
      case True
      then have "update_comment_likes_count pk 1 ?d1 = Inl IntegrityError"
        by (simp add: update_comment_likes_count_def)
      with Some pid nl d1 True show ?thesis by (simp add: like_comment_atomic_def)
    next
      case ok2: False
      let ?d2 = "?d1\<lparr>db_comments :=
                     map (\<lambda>x. if c_id x = pk then x\<lparr>c_likes_count := c_likes_count x + 1\<rparr> else x)
                         (db_comments d)\<rparr>"
      have d2: "update_comment_likes_count pk 1 ?d1 = Inr ?d2"
        using ok2 by (simp add: update_comment_likes_count_def)
      have gu2: "get_user k ?d2 = get_user k d" for k by (simp add: get_user_def)
      show ?thesis
      proof (cases "get_user (c_author_id comment) d")
        case None
        with Some pid nl d1 d2 ok2 gu2 show ?thesis by (simp add: like_comment_atomic_def)
      next
        case au: (Some author)
        have aid: "u_id author = c_author_id comment" using au by (rule get_user_id)
        let ?t = "\<lparr>k_user_id = c_author_id comment, k_amount = 1, k_reason = REASON_COMMENT_LIKE,
            k_source_id = pk, k_liker_id = Some user, k_created_at = now\<rparr>"
        let ?d2k = "karma_transaction_create ?t ?d2"
        show ?thesis
        proof (cases "list_ex (\<lambda>u. u_id u = c_author_id comment \<and> u_total_karma u + 1 < 0)
                              (db_users d)")
          case True
          then have "update_user_total_karma (c_author_id comment) 1 ?d2k = Inl IntegrityError"
            by (simp add: update_user_total_karma_def karma_transaction_create_def)
          with Some pid nl d1 d2 ok2 gu2 au aid True show ?thesis
            by (simp add: like_comment_atomic_def)
        next
          case ok3: False
          have d3: "update_user_total_karma (c_author_id comment) 1 ?d2k =
                      Inr (comment_liked now user comment d)"
            using ok3 pid
            by (simp add: update_user_total_karma_def karma_transaction_create_def comment_liked_def)
          have gp3: "get_comment pk (comment_liked now user comment d) =
                       Some (comment\<lparr>c_likes_count := c_likes_count comment + 1\<rparr>)"
            using Some pid by (simp add: get_comment_def comment_liked_def find_map_key)
          from Some pid nl d1 d2 ok2 gu2 au aid ok3 d3 gp3 show ?thesis
            by (simp add: like_comment_atomic_def)
        qed
      qed
    qed
  qed
qed

lemma unlike_comment_atomic_eq:
  "unlike_comment_atomic user pk d =
     (case get_comment pk d of
        None \<Rightarrow> Inl Comment_DoesNotExist
      | Some comment \<Rightarrow>
          (case like_first user TARGET_COMMENT pk d of
             None \<Rightarrow> Inr (LikeNotFound, d)
           | Some l \<Rightarrow>
               if list_ex (\<lambda>x. c_id x = pk \<and> c_likes_count x + (- 1) < 0) (db_comments d)
               then Inl IntegrityError
               else Inr (Unliked (c_likes_count comment + (- 1)), comment_unliked l pk d)))"
proof (cases "get_comment pk d")
  case None
  then show ?thesis by (simp add: unlike_comment_atomic_def)
next
  case (Some comment)
  then have pid: "c_id comment = pk" by (rule get_comment_id)
  show ?thesis
  proof (cases "like_first user TARGET_COMMENT pk d")
    case None
    with Some pid show ?thesis by (simp add: unlike_comment_atomic_def)
  next
    case lk: (Some l)
    show ?thesis
    proof (cases "list_ex (\<lambda>x. c_id x = pk \<and> c_likes_count x + (- 1) < 0) (db_comments d)")
      case True
      then have "update_comment_likes_count pk (- 1) (like_delete l d) = Inl IntegrityError"
        by (simp add: update_comment_likes_count_def like_delete_def)
      with Some pid lk True show ?thesis by (simp add: unlike_comment_atomic_def)
    next
      case False
      then have d2: "update_comment_likes_count pk (- 1) (like_delete l d) =
                       Inr (comment_unliked l pk d)"
        by (simp add: update_comment_likes_count_def like_delete_def comment_unliked_def)
      have gp: "get_comment pk (comment_unliked l pk d) =
                  Some (comment\<lparr>c_likes_count := c_likes_count comment + (- 1)\<rparr>)"
        using Some pid by (simp add: get_comment_def comment_unliked_def find_map_key)
      from Some pid lk False d2 gp show ?thesis by (simp add: unlike_comment_atomic_def)
    qed
  qed
qed

section \<open>The views on a like and on an unlike\<close>

lemma get_current_user_Some: "\<exists>user d0. get_current_user request d = (Some user, d0)"
  by (simp add: get_current_user_def split: option.split prod.split)

lemma get_current_user_authenticated:
  "req_user request = Some user \<Longrightarrow> get_current_user request d = (Some user, d)"
  by (simp add: get_current_user_def)

lemma get_current_user_frame:
  assumes "get_current_user request d = (u, d0)"
  shows "db_posts d0 = db_posts d" "db_comments d0 = db_comments d" "db_likes d0 = db_likes d"
    "db_karma_transactions d0 = db_karma_transactions d"
  using assms
  by (auto simp: get_current_user_def get_or_create_demo_user_def Let_def
           split: option.splits prod.splits)

lemma PostViewSet_like_Liked:
  assumes "PostViewSet_like now request pk d = (Liked likes karma, d')"
  shows "\<exists>user d0 post author.
           get_current_user request d = (Some user, d0) \<and> get_post pk d0 = Some post \<and>
           get_user (p_author_id post) d0 = Some author \<and>
           \<not> like_exists user TARGET_POST pk d0 \<and>
           likes = p_likes_count post + 1 \<and> karma = 5 \<and> d' = post_liked now user post d0"
proof -
  obtain user d0 where g: "get_current_user request d = (Some user, d0)"
    using get_current_user_Some by blast
  show ?thesis
    using assms g unfolding PostViewSet_like_def like_post_atomic_eq
    by (auto split: option.splits if_splits)
qed

lemma PostViewSet_like_other:
  assumes "PostViewSet_like now request pk d = (r, d')"
    and "\<forall>likes karma. r \<noteq> Liked likes karma"
  shows "d' = snd (get_current_user request d)"
proof -
  obtain user d0 where g: "get_current_user request d = (Some user, d0)"
    using get_current_user_Some by blast
  show ?thesis
    using assms g unfolding PostViewSet_like_def like_post_atomic_eq
    by (auto split: option.splits if_splits)
qed

lemma PostViewSet_unlike_Unliked:
  assumes "PostViewSet_unlike request pk d = (Unliked likes, d')"
  shows "\<exists>user d0 post l.
           get_current_user request d = (Some user, d0) \<and> get_post pk d0 = Some post \<and>
           like_first user TARGET_POST pk d0 = Some l \<and>
           \<not> list_ex (\<lambda>x. p_id x = pk \<and> p_likes_count x + (- 1) < 0) (db_posts d0) \<and>
           likes = p_likes_count post + (- 1) \<and> d' = post_unliked l pk d0"
proof -
  obtain user d0 where g: "get_current_user request d = (Some user, d0)"
    using get_current_user_Some by blast
  show ?thesis
    using assms g unfolding PostViewSet_unlike_def unlike_post_atomic_eq
    by (auto split: option.splits if_splits)
qed

lemma PostViewSet_unlike_other:
  assumes "PostViewSet_unlike request pk d = (r, d')"
    and "\<forall>likes. r \<noteq> Unliked likes"
  shows "d' = snd (get_current_user request d)"
proof -
  obtain user d0 where g: "get_current_user request d = (Some user, d0)"
    using get_current_user_Some by blast
  show ?thesis
    using assms g unfolding PostViewSet_unlike_def unlike_post_atomic_eq
    by (auto split: option.splits if_splits)
qed

lemma get_post_post_liked:
  "get_post (p_id x) d = Some x \<Longrightarrow>
   get_post k (post_liked now user x d) =
     map_option (\<lambda>y. if p_id y = p_id x then y\<lparr>p_likes_count := p_likes_count y + 1\<rparr> else y)
                (get_post k d)"
  by (simp add: get_post_def post_liked_def find_map_key)

lemma get_post_post_unliked:
  "get_post k (post_unliked l pk d) =
     map_option (\<lambda>y. if p_id y = pk then y\<lparr>p_likes_count := p_likes_count y + (- 1)\<rparr> else y)
                (get_post k d)"
  by (simp add: get_post_def post_unliked_def find_map_key)

lemma get_user_post_liked:
  "get_user k (post_liked now user x d) =
     map_option (\<lambda>u. if u_id u = p_author_id x
                      then u\<lparr>u_total_karma := u_total_karma u + 5\<rparr> else u)
                (get_user k d)"
  by (simp add: get_user_def post_liked_def find_map_key)

lemma CommentViewSet_like_Liked:
  assumes "CommentViewSet_like now request pk d = (Liked likes karma, d')"
  shows "\<exists>user d0 comment author.
           get_current_user request d = (Some user, d0) \<and> get_comment pk d0 = Some comment \<and>
           get_user (c_author_id comment) d0 = Some author \<and>
           \<not> like_exists user TARGET_COMMENT pk d0 \<and>
           likes = c_likes_count comment + 1 \<and> karma = 1 \<and> d' = comment_liked now user comment d0"
proof -
  obtain user d0 where g: "get_current_user request d = (Some user, d0)"
    using get_current_user_Some by blast
  show ?thesis
    using assms g unfolding CommentViewSet_like_def like_comment_atomic_eq
    by (auto split: option.splits if_splits)
qed

lemma CommentViewSet_like_other:
  assumes "CommentViewSet_like now request pk d = (r, d')"
    and "\<forall>likes karma. r \<noteq> Liked likes karma"
  shows "d' = snd (get_current_user request d)"
proof -
  obtain user d0 where g: "get_current_user request d = (Some user, d0)"
    using get_current_user_Some by blast
  show ?thesis
    using assms g unfolding CommentViewSet_like_def like_comment_atomic_eq
    by (auto split: option.splits if_splits)
qed

lemma CommentViewSet_unlike_Unliked:
  assumes "CommentViewSet_unlike request pk d = (Unliked likes, d')"
  shows "\<exists>user d0 comment l.
           get_current_user request d = (Some user, d0) \<and> get_comment pk d0 = Some comment \<and>
           like_first user TARGET_COMMENT pk d0 = Some l \<and>
           \<not> list_ex (\<lambda>x. c_id x = pk \<and> c_likes_count x + (- 1) < 0) (db_comments d0) \<and>
           likes = c_likes_count comment + (- 1) \<and> d' = comment_unliked l pk d0"
proof -
  obtain user d0 where g: "get_current_user request d = (Some user, d0)"
    using get_current_user_Some by blast
  show ?thesis
    using assms g unfolding CommentViewSet_unlike_def unlike_comment_atomic_eq
    by (auto split: option.splits if_splits)
qed

lemma CommentViewSet_unlike_other:
  assumes "CommentViewSet_unlike request pk d = (r, d')"
    and "\<forall>likes. r \<noteq> Unliked likes"
  shows "d' = snd (get_current_user request d)"
proof -
  obtain user d0 where g: "get_current_user request d = (Some user, d0)"
    using get_current_user_Some by blast
  show ?thesis
    using assms g unfolding CommentViewSet_unlike_def unlike_comment_atomic_eq
    by (auto split: option.splits if_splits)
qed

lemma get_comment_comment_liked:
  "get_comment (c_id x) d = Some x \<Longrightarrow>
   get_comment k (comment_liked now user x d) =
     map_option (\<lambda>y. if c_id y = c_id x then y\<lparr>c_likes_count := c_likes_count y + 1\<rparr> else y)
                (get_comment k d)"
  by (simp add: get_comment_def comment_liked_def find_map_key)

lemma get_comment_comment_unliked:
  "get_comment k (comment_unliked l pk d) =
     map_option (\<lambda>y. if c_id y = pk then y\<lparr>c_likes_count := c_likes_count y + (- 1)\<rparr> else y)
                (get_comment k d)"
  by (simp add: get_comment_def comment_unliked_def find_map_key)

lemma get_user_comment_liked:
  "get_user k (comment_liked now user x d) =
     map_option (\<lambda>u. if u_id u = c_author_id x
                      then u\<lparr>u_total_karma := u_total_karma u + 1\<rparr> else u)
                (get_user k d)"
  by (simp add: get_user_def comment_liked_def find_map_key)

section \<open>The example, evaluated\<close>

lemmas store_defs =
  get_post_def get_comment_def get_user_def like_exists_def like_first_def is_like_def
  like_create_def like_delete_def update_post_likes_count_def update_comment_likes_count_def
  update_user_total_karma_def karma_transaction_create_def get_current_user_def
  get_or_create_demo_user_def demo_user_def next_pk_def

lemmas view_defs =
  like_target_def unlike_target_def PostViewSet_like_def PostViewSet_unlike_def
  CommentViewSet_like_def CommentViewSet_unlike_def like_post_atomic_def
  unlike_post_atomic_def like_comment_atomic_def unlike_comment_atomic_def

lemma example_like:
  "like_target 1000 bob_request TARGET_POST 1 example_db = (Liked 1 5, example_db_liked)"
  by (simp add: view_defs store_defs bob_request_def example_db_def example_db_liked_def)

section \<open>Karma awarded by a like\<close>

text \<open>
  C4. When a like succeeds, with the response \<^verbatim>\<open>Liked likes karma\<close>, the ledger has
  grown by exactly one transaction: its recipient is the author of the target, its
  amount is 5 with reason \<^verbatim>\<open>post_like\<close> for a post and 1 with reason
  \<^verbatim>\<open>comment_like\<close> for a comment, its source is the target and its liker the
  current user. The author's \<^verbatim>\<open>total_karma\<close> has grown by the same amount, the
  response carries the new \<^verbatim>\<open>likes_count\<close>, which is the old one plus 1, and the
  amount awarded. One like row was added.
\<close>

theorem like_awards_karma:
  assumes "like_target now request tt pk d = (Liked likes karma, d')"
  shows "\<exists>user author c k.
     fst (get_current_user request d) = Some user \<and>
     target_author tt pk d = Some author \<and>
     likes_count tt pk d = Some c \<and>
     total_karma author (snd (get_current_user request d)) = Some k \<and>
     db_likes d' = db_likes d @ [\<lparr>l_user_id = user, l_target_type = tt, l_target_id = pk\<rparr>] \<and>
     db_karma_transactions d' = db_karma_transactions d @
        [\<lparr>k_user_id = author,
          k_amount = (case tt of TARGET_POST \<Rightarrow> 5 | TARGET_COMMENT \<Rightarrow> 1),
          k_reason = (case tt of TARGET_POST \<Rightarrow> REASON_POST_LIKE
                              | TARGET_COMMENT \<Rightarrow> REASON_COMMENT_LIKE),
          k_source_id = pk, k_liker_id = Some user, k_created_at = now\<rparr>] \<and>
     total_karma author d' =
        Some (k + (case tt of TARGET_POST \<Rightarrow> 5 | TARGET_COMMENT \<Rightarrow> 1)) \<and>
     likes_count tt pk d' = Some (c + 1) \<and> likes = c + 1 \<and>
     karma = (case tt of TARGET_POST \<Rightarrow> 5 | TARGET_COMMENT \<Rightarrow> 1)"
proof (cases tt)
  case TARGET_POST
  with assms have "PostViewSet_like now request pk d = (Liked likes karma, d')"
    by (simp add: like_target_def)
  from PostViewSet_like_Liked[OF this] obtain user d0 post author where
    g: "get_current_user request d = (Some user, d0)" and p: "get_post pk d0 = Some post" and
    a: "get_user (p_author_id post) d0 = Some author" and
    r: "likes = p_likes_count post + 1" "karma = 5" "d' = post_liked now user post d0"
    by blast
  note f = get_current_user_frame[OF g]
  have pid: "p_id post = pk" using p by (rule get_post_id)
  have aid: "u_id author = p_author_id post" using a by (rule get_user_id)
  have p0: "get_post pk d = Some post" using p f(1) by (simp add: get_post_def)
  have "get_post pk d' = Some (post\<lparr>p_likes_count := p_likes_count post + 1\<rparr>)"
    using p pid r(3) by (simp add: get_post_post_liked)
  moreover have "get_user (p_author_id post) d' =
      Some (author\<lparr>u_total_karma := u_total_karma author + 5\<rparr>)"
    using a aid r(3) by (simp add: get_user_post_liked)
  ultimately show ?thesis
    using TARGET_POST g p0 a r pid f
    by (simp add: target_author_def likes_count_def total_karma_def post_liked_def)
next
  case TARGET_COMMENT
  with assms have "CommentViewSet_like now request pk d = (Liked likes karma, d')"
    by (simp add: like_target_def)
  from CommentViewSet_like_Liked[OF this] obtain user d0 comment author where
    g: "get_current_user request d = (Some user, d0)" and
    p: "get_comment pk d0 = Some comment" and
    a: "get_user (c_author_id comment) d0 = Some author" and
    r: "likes = c_likes_count comment + 1" "karma = 1" "d' = comment_liked now user comment d0"
    by blast
  note f = get_current_user_frame[OF g]
  have pid: "c_id comment = pk" using p by (rule get_comment_id)
  have aid: "u_id author = c_author_id comment" using a by (rule get_user_id)
  have p0: "get_comment pk d = Some comment" using p f(2) by (simp add: get_comment_def)
  have "get_comment pk d' = Some (comment\<lparr>c_likes_count := c_likes_count comment + 1\<rparr>)"
    using p pid r(3) by (simp add: get_comment_comment_liked)
  moreover have "get_user (c_author_id comment) d' =
      Some (author\<lparr>u_total_karma := u_total_karma author + 1\<rparr>)"
    using a aid r(3) by (simp add: get_user_comment_liked)
  ultimately show ?thesis
    using TARGET_COMMENT g p0 a r pid f
    by (simp add: target_author_def likes_count_def total_karma_def comment_liked_def)
qed

lemma example_comment_like:
  "like_target 1500 alice_request TARGET_COMMENT 1 example_db =
     (Liked 1 1, example_db_comment_liked)"
  by (simp add: view_defs store_defs alice_request_def example_db_def
      example_db_comment_liked_def)

theorem like_awards_karma_witness:
  "like_target 1000 bob_request TARGET_POST 1 example_db = (Liked 1 5, example_db_liked) \<and>
   db_karma_transactions example_db_liked = db_karma_transactions example_db @
     [\<lparr>k_user_id = 1, k_amount = 5, k_reason = REASON_POST_LIKE, k_source_id = 1,
       k_liker_id = Some 2, k_created_at = 1000\<rparr>] \<and>
   total_karma 1 example_db = Some 0 \<and> total_karma 1 example_db_liked = Some 5 \<and>
   likes_count TARGET_POST 1 example_db = Some 0 \<and>
   likes_count TARGET_POST 1 example_db_liked = Some 1 \<and>
   like_target 1500 alice_request TARGET_COMMENT 1 example_db =
     (Liked 1 1, example_db_comment_liked) \<and>
   db_karma_transactions example_db_comment_liked = db_karma_transactions example_db @
     [\<lparr>k_user_id = 2, k_amount = 1, k_reason = REASON_COMMENT_LIKE, k_source_id = 1,
       k_liker_id = Some 1, k_created_at = 1500\<rparr>] \<and>
   total_karma 2 example_db = Some 10 \<and> total_karma 2 example_db_comment_liked = Some 11 \<and>
   likes_count TARGET_COMMENT 1 example_db = Some 0 \<and>
   likes_count TARGET_COMMENT 1 example_db_comment_liked = Some 1"
proof -
  have post: "like_target 1000 bob_request TARGET_POST 1 example_db = (Liked 1 5, example_db_liked) \<and>
     db_karma_transactions example_db_liked = db_karma_transactions example_db @
       [\<lparr>k_user_id = 1, k_amount = 5, k_reason = REASON_POST_LIKE, k_source_id = 1,
         k_liker_id = Some 2, k_created_at = 1000\<rparr>] \<and>
     total_karma 1 example_db = Some 0 \<and> total_karma 1 example_db_liked = Some 5 \<and>
     likes_count TARGET_POST 1 example_db = Some 0 \<and>
     likes_count TARGET_POST 1 example_db_liked = Some 1"
    using like_awards_karma[OF example_like] example_like
    by (simp add: example_db_def example_db_liked_def total_karma_def likes_count_def
        get_user_def get_post_def)
  have comment: "like_target 1500 alice_request TARGET_COMMENT 1 example_db =
       (Liked 1 1, example_db_comment_liked) \<and>
     db_karma_transactions example_db_comment_liked = db_karma_transactions example_db @
       [\<lparr>k_user_id = 2, k_amount = 1, k_reason = REASON_COMMENT_LIKE, k_source_id = 1,
         k_liker_id = Some 1, k_created_at = 1500\<rparr>] \<and>
     total_karma 2 example_db = Some 10 \<and>
     total_karma 2 example_db_comment_liked = Some 11 \<and>
     likes_count TARGET_COMMENT 1 example_db = Some 0 \<and>
     likes_count TARGET_COMMENT 1 example_db_comment_liked = Some 1"
    using like_awards_karma[OF example_comment_like] example_comment_like
    by (simp add: example_db_def example_db_comment_liked_def total_karma_def likes_count_def
        get_user_def get_comment_def)
  from post comment show ?thesis by blast
qed

section \<open>Liking twice\<close>

lemma get_current_user_post_liked:
  assumes "get_current_user request d = (Some user, d)"
  shows "get_current_user request (post_liked now liker x d) =
           (Some user, post_liked now liker x d)"
proof (cases "req_user request")
  case (Some u)
  with assms show ?thesis by (simp add: get_current_user_def)
next
  case None
  let ?f = "\<lambda>u. if u_id u = p_author_id x
                then u\<lparr>u_total_karma := u_total_karma u + 5\<rparr> else u"
  from assms None obtain u where
    u: "find (\<lambda>u. u_username u = ''demo_user'') (db_users d) = Some u" "u_id u = user"
    by (cases "find (\<lambda>u. u_username u = ''demo_user'') (db_users d)")
       (auto simp: get_current_user_def get_or_create_demo_user_def Let_def
             dest: arg_cong[where f = "\<lambda>s. length (db_users s)"])
  have "find (\<lambda>u. u_username u = ''demo_user'') (map ?f (db_users d)) = Some (?f u)"
    using u(1) by (simp add: find_map_key)
  then show ?thesis
    using None u(2)
    by (simp add: get_current_user_def get_or_create_demo_user_def post_liked_def)
qed

lemma PostViewSet_like_twice:
  assumes g: "get_current_user request d = (Some user, d)"
    and pf: "positive_fields d"
    and p: "get_post pk d = Some x"
    and a: "get_user (p_author_id x) d = Some author"
    and nl: "\<not> like_exists user TARGET_POST pk d"
  shows "PostViewSet_like now request pk d =
           (Liked (p_likes_count x + 1) 5, post_liked now user x d)"
    and "PostViewSet_like now' request pk (post_liked now user x d) =
           (AlreadyLiked, post_liked now user x d)"
proof -
  have pid: "p_id x = pk" using p by (rule get_post_id)
  have c1: "\<not> list_ex (\<lambda>y. p_id y = pk \<and> p_likes_count y + 1 < 0) (db_posts d)"
    using pf by (auto simp: positive_fields_def list_ex_iff list_all_iff)
  have c2: "\<not> list_ex (\<lambda>u. u_id u = p_author_id x \<and> u_total_karma u + 5 < 0) (db_users d)"
    using pf by (auto simp: positive_fields_def list_ex_iff list_all_iff)
  show "PostViewSet_like now request pk d =
          (Liked (p_likes_count x + 1) 5, post_liked now user x d)"
    using g p a nl c1 c2 by (simp add: PostViewSet_like_def like_post_atomic_eq)
  have g': "get_current_user request (post_liked now user x d) =
              (Some user, post_liked now user x d)"
    using g by (rule get_current_user_post_liked)
  have p': "get_post pk (post_liked now user x d) =
              Some (x\<lparr>p_likes_count := p_likes_count x + 1\<rparr>)"
    using p pid by (simp add: get_post_post_liked)
  have l': "like_exists user TARGET_POST pk (post_liked now user x d)"
    using pid by (simp add: like_exists_def post_liked_def is_like_def)
  show "PostViewSet_like now' request pk (post_liked now user x d) =
          (AlreadyLiked, post_liked now user x d)"
    using g' p' l' by (simp add: PostViewSet_like_def like_post_atomic_eq)
qed

lemma get_current_user_comment_liked:
  assumes "get_current_user request d = (Some user, d)"
  shows "get_current_user request (comment_liked now liker x d) =
           (Some user, comment_liked now liker x d)"
proof (cases "req_user request")
  case (Some u)
  with assms show ?thesis by (simp add: get_current_user_def)
next
  case None
  let ?f = "\<lambda>u. if u_id u = c_author_id x
                then u\<lparr>u_total_karma := u_total_karma u + 1\<rparr> else u"
  from assms None obtain u where
    u: "find (\<lambda>u. u_username u = ''demo_user'') (db_users d) = Some u" "u_id u = user"
    by (cases "find (\<lambda>u. u_username u = ''demo_user'') (db_users d)")
       (auto simp: get_current_user_def get_or_create_demo_user_def Let_def
             dest: arg_cong[where f = "\<lambda>s. length (db_users s)"])
  have "find (\<lambda>u. u_username u = ''demo_user'') (map ?f (db_users d)) = Some (?f u)"
    using u(1) by (simp add: find_map_key)
  then show ?thesis
    using None u(2)
    by (simp add: get_current_user_def get_or_create_demo_user_def comment_liked_def)
qed

lemma CommentViewSet_like_twice:
  assumes g: "get_current_user request d = (Some user, d)"
    and pf: "positive_fields d"
    and p: "get_comment pk d = Some x"
    and a: "get_user (c_author_id x) d = Some author"
    and nl: "\<not> like_exists user TARGET_COMMENT pk d"
  shows "CommentViewSet_like now request pk d =
           (Liked (c_likes_count x + 1) 1, comment_liked now user x d)"
    and "CommentViewSet_like now' request pk (comment_liked now user x d) =
           (AlreadyLiked, comment_liked now user x d)"
proof -
  have pid: "c_id x = pk" using p by (rule get_comment_id)
  have c1: "\<not> list_ex (\<lambda>y. c_id y = pk \<and> c_likes_count y + 1 < 0) (db_comments d)"
    using pf by (auto simp: positive_fields_def list_ex_iff list_all_iff)
  have c2: "\<not> list_ex (\<lambda>u. u_id u = c_author_id x \<and> u_total_karma u + 1 < 0) (db_users d)"
    using pf by (auto simp: positive_fields_def list_ex_iff list_all_iff)
  show "CommentViewSet_like now request pk d =
          (Liked (c_likes_count x + 1) 1, comment_liked now user x d)"
    using g p a nl c1 c2 by (simp add: CommentViewSet_like_def like_comment_atomic_eq)
  have g': "get_current_user request (comment_liked now user x d) =
              (Some user, comment_liked now user x d)"
    using g by (rule get_current_user_comment_liked)
  have p': "get_comment pk (comment_liked now user x d) =
              Some (x\<lparr>c_likes_count := c_likes_count x + 1\<rparr>)"
    using p pid by (simp add: get_comment_comment_liked)
  have l': "like_exists user TARGET_COMMENT pk (comment_liked now user x d)"
    using pid by (simp add: like_exists_def comment_liked_def is_like_def)
  show "CommentViewSet_like now' request pk (comment_liked now user x d) =
          (AlreadyLiked, comment_liked now user x d)"
    using g' p' l' by (simp add: CommentViewSet_like_def like_comment_atomic_eq)
qed

section \<open>Liking twice, unliking\<close>

lemma example_like_again:
  "like_target 2000 bob_request TARGET_POST 1 example_db_liked = (AlreadyLiked, example_db_liked)"
  by (simp add: view_defs store_defs bob_request_def example_db_liked_def)

lemma example_unlike:
  "unlike_target bob_request TARGET_POST 1 example_db_liked = (Unliked 0, example_db_unliked)"
  by (simp add: view_defs store_defs bob_request_def example_db_liked_def example_db_unliked_def)

lemma like_first_Some:
  assumes "like_first user tt pk d = Some l"
  shows "l = \<lparr>l_user_id = user, l_target_type = tt, l_target_id = pk\<rparr>" "l \<in> set (db_likes d)"
proof -
  from assms have "is_like user tt pk l \<and> l \<in> set (db_likes d)"
    unfolding like_first_def by (auto simp: find_Some_iff)
  then show "l = \<lparr>l_user_id = user, l_target_type = tt, l_target_id = pk\<rparr>" "l \<in> set (db_likes d)"
    by (simp_all add: is_like_def)
qed

text \<open>
  C3. Take a request whose user is resolved without a change of the store, a target
  that exists with a count \<^verbatim>\<open>c\<close>, whose author exists, and that this user has not
  liked, in a store whose counters are not negative. The first like succeeds and
  reports \<^verbatim>\<open>c + 1\<close>; the second like of the same target by the same request, at any
  later time, answers \<^verbatim>\<open>AlreadyLiked\<close> and returns the store exactly as the first
  like left it: one like row was added in all, and the count is \<^verbatim>\<open>c + 1\<close>.
\<close>

theorem like_twice:
  assumes "get_current_user request d = (Some user, d)"
    and "positive_fields d"
    and "likes_count tt pk d = Some c"
    and "target_author tt pk d = Some a"
    and "total_karma a d = Some k"
    and "\<not> like_exists user tt pk d"
  shows "\<exists>d1.
     like_target now request tt pk d =
       (Liked (c + 1) (case tt of TARGET_POST \<Rightarrow> 5 | TARGET_COMMENT \<Rightarrow> 1), d1) \<and>
     like_target now' request tt pk d1 = (AlreadyLiked, d1) \<and>
     likes_count tt pk d1 = Some (c + 1) \<and>
     db_likes d1 = db_likes d @ [\<lparr>l_user_id = user, l_target_type = tt, l_target_id = pk\<rparr>]"
proof (cases tt)
  case TARGET_POST
  from assms(3,4,5) TARGET_POST obtain x author where
    p: "get_post pk d = Some x" and c: "p_likes_count x = c" and
    a: "get_user (p_author_id x) d = Some author"
    by (auto simp: likes_count_def target_author_def total_karma_def)
  have pid: "p_id x = pk" using p by (rule get_post_id)
  note t = PostViewSet_like_twice[OF assms(1,2) p a]
  have nl: "\<not> like_exists user TARGET_POST pk d" using assms(6) TARGET_POST by simp
  have "likes_count tt pk (post_liked now user x d) = Some (c + 1)"
    using p pid c TARGET_POST by (simp add: likes_count_def get_post_post_liked)
  moreover have "db_likes (post_liked now user x d) =
      db_likes d @ [\<lparr>l_user_id = user, l_target_type = tt, l_target_id = pk\<rparr>]"
    using pid TARGET_POST by (simp add: post_liked_def)
  ultimately show ?thesis
    using t[OF nl] c TARGET_POST by (simp add: like_target_def)
next
  case TARGET_COMMENT
  from assms(3,4,5) TARGET_COMMENT obtain x author where
    p: "get_comment pk d = Some x" and c: "c_likes_count x = c" and
    a: "get_user (c_author_id x) d = Some author"
    by (auto simp: likes_count_def target_author_def total_karma_def)
  have pid: "c_id x = pk" using p by (rule get_comment_id)
  note t = CommentViewSet_like_twice[OF assms(1,2) p a]
  have nl: "\<not> like_exists user TARGET_COMMENT pk d" using assms(6) TARGET_COMMENT by simp
  have "likes_count tt pk (comment_liked now user x d) = Some (c + 1)"
    using p pid c TARGET_COMMENT by (simp add: likes_count_def get_comment_comment_liked)
  moreover have "db_likes (comment_liked now user x d) =
      db_likes d @ [\<lparr>l_user_id = user, l_target_type = tt, l_target_id = pk\<rparr>]"
    using pid TARGET_COMMENT by (simp add: comment_liked_def)
  ultimately show ?thesis
    using t[OF nl] c TARGET_COMMENT by (simp add: like_target_def)
qed

theorem like_twice_witness:
  "get_current_user bob_request example_db = (Some 2, example_db) \<and>
   positive_fields example_db \<and>
   likes_count TARGET_POST 1 example_db = Some 0 \<and>
   target_author TARGET_POST 1 example_db = Some 1 \<and>
   total_karma 1 example_db = Some 0 \<and>
   \<not> like_exists 2 TARGET_POST 1 example_db \<and>
   like_target 1000 bob_request TARGET_POST 1 example_db = (Liked 1 5, example_db_liked) \<and>
   like_target 2000 bob_request TARGET_POST 1 example_db_liked =
     (AlreadyLiked, example_db_liked) \<and>
   likes_count TARGET_POST 1 example_db_liked = Some 1"
proof -
  have h1: "get_current_user bob_request example_db = (Some 2, example_db)"
    by (simp add: get_current_user_def bob_request_def)
  have h2: "positive_fields example_db"
    by (simp add: positive_fields_def example_db_def)
  have h3: "likes_count TARGET_POST 1 example_db = Some 0"
    by (simp add: likes_count_def get_post_def example_db_def)
  have h4: "target_author TARGET_POST 1 example_db = Some 1"
    by (simp add: target_author_def get_post_def example_db_def)
  have h5: "total_karma 1 example_db = Some 0"
    by (simp add: total_karma_def get_user_def example_db_def)
  have h6: "\<not> like_exists 2 TARGET_POST 1 example_db"
    by (simp add: like_exists_def example_db_def)
  from like_twice[OF h1 h2 h3 h4 h5 h6, of 1000 2000] h1 h2 h3 h4 h5 h6 example_like
  show ?thesis by auto
qed


text \<open>
  C5. When an unlike succeeds, with the response \<^verbatim>\<open>Unliked likes\<close>, the like row of
  the current user for the target was in the store and has been deleted, the
  \<^verbatim>\<open>likes_count\<close> of the target is one less and is what the response reports, and
  the ledger of karma transactions is the same list as before: no transaction was
  appended or changed, the sum for every recipient is what it was, and no user's
  \<^verbatim>\<open>total_karma\<close> was written. In the example the post is liked and then unliked,
  and its author keeps the 5.
\<close>

theorem unlike_keeps_karma:
  assumes "unlike_target request tt pk d = (Unliked likes, d')"
  shows "\<exists>user c.
     fst (get_current_user request d) = Some user \<and>
     \<lparr>l_user_id = user, l_target_type = tt, l_target_id = pk\<rparr> \<in> set (db_likes d) \<and>
     db_likes d' =
       remove1 \<lparr>l_user_id = user, l_target_type = tt, l_target_id = pk\<rparr> (db_likes d) \<and>
     likes_count tt pk d = Some c \<and> likes_count tt pk d' = Some (c - 1) \<and> likes = c - 1 \<and>
     db_karma_transactions d' = db_karma_transactions d \<and>
     karma_sum recipient d' = karma_sum recipient d \<and>
     db_users d' = db_users (snd (get_current_user request d))"
proof (cases tt)
  case TARGET_POST
  with assms have "PostViewSet_unlike request pk d = (Unliked likes, d')"
    by (simp add: unlike_target_def)
  from PostViewSet_unlike_Unliked[OF this] obtain user d0 x l where
    g: "get_current_user request d = (Some user, d0)" and p: "get_post pk d0 = Some x" and
    l: "like_first user TARGET_POST pk d0 = Some l" and
    r: "likes = p_likes_count x + (- 1)" "d' = post_unliked l pk d0"
    by blast
  note f = get_current_user_frame[OF g]
  note lf = like_first_Some[OF l]
  have pid: "p_id x = pk" using p by (rule get_post_id)
  have p0: "get_post pk d = Some x" using p f(1) by (simp add: get_post_def)
  have "get_post pk d' = Some (x\<lparr>p_likes_count := p_likes_count x + (- 1)\<rparr>)"
    using p pid r(2) by (simp add: get_post_post_unliked)
  then have lc: "likes_count tt pk d' = Some (p_likes_count x - 1)"
    using TARGET_POST by (simp add: likes_count_def)
  have lc0: "likes_count tt pk d = Some (p_likes_count x)"
    using TARGET_POST p0 by (simp add: likes_count_def)
  have u: "fst (get_current_user request d) = Some user" using g by simp
  have m: "\<lparr>l_user_id = user, l_target_type = tt, l_target_id = pk\<rparr> \<in> set (db_likes d)"
    using lf f(3) TARGET_POST by simp
  have dl: "db_likes d' =
      remove1 \<lparr>l_user_id = user, l_target_type = tt, l_target_id = pk\<rparr> (db_likes d)"
    using lf(1) f(3) r(2) TARGET_POST by (simp add: post_unliked_def)
  have kt: "db_karma_transactions d' = db_karma_transactions d"
    using r(2) f(4) by (simp add: post_unliked_def)
  have ks: "karma_sum recipient d' = karma_sum recipient d"
    using kt by (simp add: karma_sum_def)
  have us: "db_users d' = db_users (snd (get_current_user request d))"
    using r(2) g by (simp add: post_unliked_def)
  have lk: "likes = p_likes_count x - 1" using r(1) by simp
  from u m dl lc0 lc lk kt ks us show ?thesis by blast
next
  case TARGET_COMMENT
  with assms have "CommentViewSet_unlike request pk d = (Unliked likes, d')"
    by (simp add: unlike_target_def)
  from CommentViewSet_unlike_Unliked[OF this] obtain user d0 x l where
    g: "get_current_user request d = (Some user, d0)" and p: "get_comment pk d0 = Some x" and
    l: "like_first user TARGET_COMMENT pk d0 = Some l" and
    r: "likes = c_likes_count x + (- 1)" "d' = comment_unliked l pk d0"
    by blast
  note f = get_current_user_frame[OF g]
  note lf = like_first_Some[OF l]
  have pid: "c_id x = pk" using p by (rule get_comment_id)
  have p0: "get_comment pk d = Some x" using p f(2) by (simp add: get_comment_def)
  have "get_comment pk d' = Some (x\<lparr>c_likes_count := c_likes_count x + (- 1)\<rparr>)"
    using p pid r(2) by (simp add: get_comment_comment_unliked)
  then have lc: "likes_count tt pk d' = Some (c_likes_count x - 1)"
    using TARGET_COMMENT by (simp add: likes_count_def)
  have lc0: "likes_count tt pk d = Some (c_likes_count x)"
    using TARGET_COMMENT p0 by (simp add: likes_count_def)
  have u: "fst (get_current_user request d) = Some user" using g by simp
  have m: "\<lparr>l_user_id = user, l_target_type = tt, l_target_id = pk\<rparr> \<in> set (db_likes d)"
    using lf f(3) TARGET_COMMENT by simp
  have dl: "db_likes d' =
      remove1 \<lparr>l_user_id = user, l_target_type = tt, l_target_id = pk\<rparr> (db_likes d)"
    using lf(1) f(3) r(2) TARGET_COMMENT by (simp add: comment_unliked_def)
  have kt: "db_karma_transactions d' = db_karma_transactions d"
    using r(2) f(4) by (simp add: comment_unliked_def)
  have ks: "karma_sum recipient d' = karma_sum recipient d"
    using kt by (simp add: karma_sum_def)
  have us: "db_users d' = db_users (snd (get_current_user request d))"
    using r(2) g by (simp add: comment_unliked_def)
  have lk: "likes = c_likes_count x - 1" using r(1) by simp
  from u m dl lc0 lc lk kt ks us show ?thesis by blast
qed



theorem unlike_keeps_karma_witness:
  "like_target 1000 bob_request TARGET_POST 1 example_db = (Liked 1 5, example_db_liked) \<and>
   unlike_target bob_request TARGET_POST 1 example_db_liked = (Unliked 0, example_db_unliked) \<and>
   db_likes example_db_unliked = [] \<and>
   likes_count TARGET_POST 1 example_db_unliked = Some 0 \<and>
   db_karma_transactions example_db_unliked = db_karma_transactions example_db_liked \<and>
   karma_sum 1 example_db_liked = 5 \<and> karma_sum 1 example_db_unliked = 5 \<and>
   total_karma 1 example_db_unliked = Some 5"
  using unlike_keeps_karma[OF example_unlike, of 1] example_unlike example_like
  by (simp add: example_db_liked_def example_db_unliked_def karma_sum_def likes_count_def
      total_karma_def get_post_def get_user_def)

section \<open>Requests without a user\<close>

lemma get_current_user_anonymous:
  assumes "req_user request = None"
  shows "get_current_user request d =
           (Some (u_id (fst (get_or_create_demo_user d))), snd (get_or_create_demo_user d))"
  using assms by (simp add: get_current_user_def split: prod.split)

lemma demo_user_username:
  "u_username (fst (get_or_create_demo_user d)) = ''demo_user''"
  by (auto simp: get_or_create_demo_user_def demo_user_def Let_def find_Some_iff
           split: option.split)

lemma step_not_Unauthorized: "fst (step c d) \<noteq> Unauthorized"
proof -
  obtain user d0 where g: "get_current_user (call_request c) d = (Some user, d0)"
    using get_current_user_Some by blast
  show ?thesis
  proof (cases "call_op c")
    case CreatePost
    with g show ?thesis
      by (simp add: step_def PostViewSet_create_def Let_def split: option.split)
  next
    case (CreateComment pk)
    with g show ?thesis
      by (simp add: step_def PostViewSet_comments_post_def Let_def split: option.split)
  next
    case CommentCreate
    with g show ?thesis
      by (simp add: step_def CommentViewSet_create_def Let_def comment_create_def
               split: option.split sum.split)
  next
    case (Like tt pk)
    with g show ?thesis
      by (cases tt)
         (simp_all add: step_def like_target_def PostViewSet_like_def CommentViewSet_like_def
               like_post_atomic_eq like_comment_atomic_eq split: option.split)
  next
    case (Unlike tt pk)
    with g show ?thesis
      by (cases tt)
         (simp_all add: step_def unlike_target_def PostViewSet_unlike_def
               CommentViewSet_unlike_def unlike_post_atomic_eq unlike_comment_atomic_eq
               split: option.split)
  qed
qed

lemma step_anonymous:
  assumes "req_user (call_request c) = None"
  shows "fst (step c d) =
           fst (step (call_as (u_id (fst (get_or_create_demo_user d))) c)
                     (snd (get_or_create_demo_user d)))"
    and "snd (step c d) =
           snd (step (call_as (u_id (fst (get_or_create_demo_user d))) c)
                     (snd (get_or_create_demo_user d))) \<or>
         (\<exists>pk. call_op c = CreateComment pk \<and> get_post pk d = None \<and> snd (step c d) = d)"
proof -
  let ?u = "u_id (fst (get_or_create_demo_user d))"
  let ?d0 = "snd (get_or_create_demo_user d)"
  let ?r = "(call_request c)\<lparr>req_user := Some ?u\<rparr>"
  have g: "get_current_user (call_request c) d = (Some ?u, ?d0)"
    using assms by (rule get_current_user_anonymous)
  have g': "get_current_user ?r ?d0 = (Some ?u, ?d0)"
    by (simp add: get_current_user_def)
  note f = get_current_user_frame[OF g]
  have gp: "get_post k ?d0 = get_post k d" for k using f(1) by (simp add: get_post_def)
  have "step c d = step (call_as ?u c) ?d0 \<or>
        (\<exists>pk. call_op c = CreateComment pk \<and> get_post pk d = None \<and>
              step c d = (NotFound, d) \<and> step (call_as ?u c) ?d0 = (NotFound, ?d0))"
  proof (cases "call_op c")
    case CreatePost
    then show ?thesis
      by (simp add: step_def call_as_def PostViewSet_create_def g g'
               PostCreateSerializer_is_valid_def)
  next
    case (CreateComment pk)
    then show ?thesis
      by (cases "get_post pk d")
         (simp_all add: step_def call_as_def PostViewSet_comments_post_def g g' gp)
  next
    case CommentCreate
    then show ?thesis
      by (simp add: step_def call_as_def CommentViewSet_create_def g g' validate_parent_def
               Let_def cong: option.case_cong sum.case_cong if_cong)
  next
    case (Like tt pk)
    then show ?thesis
      by (cases tt)
         (simp_all add: step_def call_as_def like_target_def PostViewSet_like_def
               CommentViewSet_like_def g g')
  next
    case (Unlike tt pk)
    then show ?thesis
      by (cases tt)
         (simp_all add: step_def call_as_def unlike_target_def PostViewSet_unlike_def
               CommentViewSet_unlike_def g g')
  qed
  then show "fst (step c d) = fst (step (call_as ?u c) ?d0)"
    and "snd (step c d) = snd (step (call_as ?u c) ?d0) \<or>
         (\<exists>pk. call_op c = CreateComment pk \<and> get_post pk d = None \<and> snd (step c d) = d)"
    by auto
qed

lemma example_anonymous_like:
  "step anonymous_like example_db = (Liked 1 5, example_db_demo_liked)"
  by (simp add: step_def anonymous_like_def anonymous_request_def view_defs store_defs
      example_db_def example_db_demo_liked_def Let_def)

lemma example_anonymous_post:
  "step anonymous_post example_db = (Created 2, example_db_demo_posted)"
  by (simp add: step_def anonymous_post_def PostViewSet_create_def
      PostCreateSerializer_is_valid_def validate_content_def strip_def isspace_def
      store_defs example_db_def example_db_demo_posted_def Let_def)

text \<open>
  C2, as the code has it. No call answers \<^verbatim>\<open>Unauthorized\<close>, whatever the request:
  \<^verbatim>\<open>_get_current_user\<close> always resolves a user, so the test \<^verbatim>\<open>if not user\<close> of
  the views never holds. For a request without a user the resolved user is the one
  named \<^verbatim>\<open>demo_user\<close>, found or created, and the call gives the response, and
  leaves the store, that the same call made by that user gives on the store where the
  demo user exists. The one exception is in the store only: creating a comment on a
  post that does not exist answers \<^verbatim>\<open>NotFound\<close> before the user is resolved, so the
  demo user is not created then.
\<close>

theorem unresolved_actor_is_demo_user:
  "fst (step c d) \<noteq> Unauthorized \<and>
   u_username (fst (get_or_create_demo_user d)) = ''demo_user'' \<and>
   (req_user (call_request c) = None \<longrightarrow>
      fst (get_current_user (call_request c) d) =
        Some (u_id (fst (get_or_create_demo_user d))) \<and>
      fst (step c d) =
        fst (step (call_as (u_id (fst (get_or_create_demo_user d))) c)
                  (snd (get_or_create_demo_user d))) \<and>
      (snd (step c d) =
         snd (step (call_as (u_id (fst (get_or_create_demo_user d))) c)
                   (snd (get_or_create_demo_user d))) \<or>
       (\<exists>pk. call_op c = CreateComment pk \<and> get_post pk d = None \<and> snd (step c d) = d)))"
  using step_not_Unauthorized[of c d] demo_user_username[of d]
    step_anonymous[of c d] get_current_user_anonymous[of "call_request c" d]
  by simp

theorem unresolved_actor_is_demo_user_witness:
  "req_user (call_request anonymous_like) = None \<and>
   req_user (call_request anonymous_post) = None \<and>
   get_or_create_demo_user example_db =
     (demo_user 3, example_db\<lparr>db_users := db_users example_db @ [demo_user 3]\<rparr>) \<and>
   step anonymous_like example_db = (Liked 1 5, example_db_demo_liked) \<and>
   step (call_as 3 anonymous_like)
        (example_db\<lparr>db_users := db_users example_db @ [demo_user 3]\<rparr>) =
     (Liked 1 5, example_db_demo_liked) \<and>
   step anonymous_post example_db = (Created 2, example_db_demo_posted) \<and>
   step (call_as 3 anonymous_post)
        (example_db\<lparr>db_users := db_users example_db @ [demo_user 3]\<rparr>) =
     (Created 2, example_db_demo_posted)"
proof -
  have h1: "req_user (call_request anonymous_like) = None"
    by (simp add: anonymous_like_def anonymous_request_def)
  have h2: "req_user (call_request anonymous_post) = None"
    by (simp add: anonymous_post_def)
  have g: "get_or_create_demo_user example_db =
     (demo_user 3, example_db\<lparr>db_users := db_users example_db @ [demo_user 3]\<rparr>)"
    by (simp add: get_or_create_demo_user_def example_db_def next_pk_def demo_user_def Let_def)
  have n1: "\<not> (\<exists>pk. call_op anonymous_like = CreateComment pk \<and>
                 get_post pk example_db = None \<and> snd (step anonymous_like example_db) = example_db)"
    by (simp add: anonymous_like_def)
  have n2: "\<not> (\<exists>pk. call_op anonymous_post = CreateComment pk \<and>
                 get_post pk example_db = None \<and> snd (step anonymous_post example_db) = example_db)"
    by (simp add: anonymous_post_def)
  from unresolved_actor_is_demo_user[of anonymous_like example_db] h1 g n1
  have a: "step (call_as 3 anonymous_like)
        (example_db\<lparr>db_users := db_users example_db @ [demo_user 3]\<rparr>) =
      step anonymous_like example_db"
    by (simp add: demo_user_def prod_eq_iff)
  from unresolved_actor_is_demo_user[of anonymous_post example_db] h2 g n2
  have b: "step (call_as 3 anonymous_post)
        (example_db\<lparr>db_users := db_users example_db @ [demo_user 3]\<rparr>) =
      step anonymous_post example_db"
    by (simp add: demo_user_def prod_eq_iff)
  from h1 h2 g a b example_anonymous_like example_anonymous_post show ?thesis by simp
qed

text \<open>
  C2 as the specification states it fails: a like by a request without a user is not
  answered \<^verbatim>\<open>Unauthorized\<close> but succeeds, and it changes the store.
\<close>

theorem unauthorized_counterexample:
  "req_user (call_request anonymous_like) = None \<and>
   call_op anonymous_like = Like TARGET_POST 1 \<and>
   fst (step anonymous_like example_db) = Liked 1 5 \<and>
   fst (step anonymous_like example_db) \<noteq> Unauthorized \<and>
   snd (step anonymous_like example_db) = example_db_demo_liked \<and>
   snd (step anonymous_like example_db) \<noteq> example_db"
proof -
  have "req_user (call_request anonymous_like) = None"
    and "call_op anonymous_like = Like TARGET_POST 1"
    by (simp_all add: anonymous_like_def anonymous_request_def)
  moreover have "example_db_demo_liked \<noteq> example_db"
    by (simp add: example_db_demo_liked_def example_db_def)
  ultimately show ?thesis
    by (simp add: example_anonymous_like)
qed

section \<open>The effect of one call, and of a sequence of calls\<close>

lemma PostViewSet_like_effect:
  assumes "PostViewSet_like now request pk' d = (r, d')"
  shows "(get_comment k d' = get_comment k d) \<and>
        (get_post k d = Some y \<longrightarrow>
         get_post k d' =
           Some (if k = pk' \<and> (\<exists>l a. r = Liked l a)
                 then y\<lparr>p_likes_count := p_likes_count y + 1\<rparr> else y)) \<and>
        (db_karma_transactions d' = db_karma_transactions d \<or>
         (\<exists>t. db_karma_transactions d' = db_karma_transactions d @ [t] \<and> k_amount t = 5))"
proof -
  obtain user d0 where g: "get_current_user request d = (Some user, d0)"
    using get_current_user_Some by blast
  note f = get_current_user_frame[OF g]
  have gp0: "get_post j d0 = get_post j d" for j using f by (simp add: get_post_def)
  have go0: "get_comment j d0 = get_comment j d" for j using f by (simp add: get_comment_def)
  show ?thesis
  proof (cases "\<exists>l a. r = Liked l a")
    case True
    then obtain l a where r: "r = Liked l a" by blast
    from PostViewSet_like_Liked[OF assms[unfolded r]] g obtain x where
      x: "get_post pk' d0 = Some x" and d': "d' = post_liked now user x d0"
      by auto
    have xid: "p_id x = pk'" using x by (rule get_post_id)
    have yid: "p_id y = k" if "get_post k d = Some y" using that by (rule get_post_id)
    have "get_comment k d' = get_comment k d"
      using go0 by (simp add: d' get_comment_def post_liked_def)
    moreover have "get_post k d' =
        Some (if k = pk' then y\<lparr>p_likes_count := p_likes_count y + 1\<rparr> else y)"
      if "get_post k d = Some y"
      using that x xid yid[OF that] gp0 by (auto simp: d' get_post_post_liked)
    moreover have "\<exists>t. db_karma_transactions d' = db_karma_transactions d @ [t] \<and>
                      k_amount t = 5"
      using f by (simp add: d' post_liked_def)
    ultimately show ?thesis
      using True by simp
  next
    case False
    then have "d' = d0" using PostViewSet_like_other[OF assms] g by simp
    then show ?thesis
      using False gp0 go0 f by simp
  qed
qed

lemma PostViewSet_unlike_effect:
  assumes "PostViewSet_unlike request pk' d = (r, d')"
  shows "(get_comment k d' = get_comment k d) \<and>
        (get_post k d = Some y \<longrightarrow>
         get_post k d' =
           Some (if k = pk' \<and> (\<exists>l. r = Unliked l)
                 then y\<lparr>p_likes_count := p_likes_count y - 1\<rparr> else y)) \<and>
        (get_post pk' d = Some y \<longrightarrow> (\<exists>l. r = Unliked l) \<longrightarrow> 0 \<le> p_likes_count y - 1) \<and>
        db_karma_transactions d' = db_karma_transactions d"
proof -
  obtain user d0 where g: "get_current_user request d = (Some user, d0)"
    using get_current_user_Some by blast
  note f = get_current_user_frame[OF g]
  have gp0: "get_post j d0 = get_post j d" for j using f by (simp add: get_post_def)
  have go0: "get_comment j d0 = get_comment j d" for j using f by (simp add: get_comment_def)
  show ?thesis
  proof (cases "\<exists>l. r = Unliked l")
    case True
    then obtain l where r: "r = Unliked l" by blast
    from PostViewSet_unlike_Unliked[OF assms[unfolded r]] g obtain x lk where
      x: "get_post pk' d0 = Some x" and
      ok: "\<not> list_ex (\<lambda>x. p_id x = pk' \<and> p_likes_count x + (- 1) < 0) (db_posts d0)" and
      d': "d' = post_unliked lk pk' d0"
      by auto
    have yid: "p_id y = k" if "get_post k d = Some y" using that by (rule get_post_id)
    have "get_comment k d' = get_comment k d"
      using go0 by (simp add: d' get_comment_def post_unliked_def)
    moreover have "get_post k d' =
        Some (if k = pk' then y\<lparr>p_likes_count := p_likes_count y - 1\<rparr> else y)"
      if "get_post k d = Some y"
      using that yid[OF that] gp0 by (auto simp: d' get_post_post_unliked)
    moreover have "0 \<le> p_likes_count y - 1" if "get_post pk' d = Some y"
    proof -
      from that gp0 have "find (\<lambda>x. p_id x = pk') (db_posts d0) = Some y"
        by (simp add: get_post_def)
      from find_key[OF this] ok show ?thesis
        by (auto simp: list_ex_iff)
    qed
    moreover have "db_karma_transactions d' = db_karma_transactions d"
      using f by (simp add: d' post_unliked_def)
    ultimately show ?thesis
      using True by simp
  next
    case False
    then have "d' = d0" using PostViewSet_unlike_other[OF assms] g by simp
    then show ?thesis
      using False gp0 go0 f by simp
  qed
qed

lemma CommentViewSet_like_effect:
  assumes "CommentViewSet_like now request pk' d = (r, d')"
  shows "(get_post k d' = get_post k d) \<and>
        (get_comment k d = Some y \<longrightarrow>
         get_comment k d' =
           Some (if k = pk' \<and> (\<exists>l a. r = Liked l a)
                 then y\<lparr>c_likes_count := c_likes_count y + 1\<rparr> else y)) \<and>
        (db_karma_transactions d' = db_karma_transactions d \<or>
         (\<exists>t. db_karma_transactions d' = db_karma_transactions d @ [t] \<and> k_amount t = 1))"
proof -
  obtain user d0 where g: "get_current_user request d = (Some user, d0)"
    using get_current_user_Some by blast
  note f = get_current_user_frame[OF g]
  have gp0: "get_comment j d0 = get_comment j d" for j using f by (simp add: get_comment_def)
  have go0: "get_post j d0 = get_post j d" for j using f by (simp add: get_post_def)
  show ?thesis
  proof (cases "\<exists>l a. r = Liked l a")
    case True
    then obtain l a where r: "r = Liked l a" by blast
    from CommentViewSet_like_Liked[OF assms[unfolded r]] g obtain x where
      x: "get_comment pk' d0 = Some x" and d': "d' = comment_liked now user x d0"
      by auto
    have xid: "c_id x = pk'" using x by (rule get_comment_id)
    have yid: "c_id y = k" if "get_comment k d = Some y" using that by (rule get_comment_id)
    have "get_post k d' = get_post k d"
      using go0 by (simp add: d' get_post_def comment_liked_def)
    moreover have "get_comment k d' =
        Some (if k = pk' then y\<lparr>c_likes_count := c_likes_count y + 1\<rparr> else y)"
      if "get_comment k d = Some y"
      using that x xid yid[OF that] gp0 by (auto simp: d' get_comment_comment_liked)
    moreover have "\<exists>t. db_karma_transactions d' = db_karma_transactions d @ [t] \<and>
                      k_amount t = 1"
      using f by (simp add: d' comment_liked_def)
    ultimately show ?thesis
      using True by simp
  next
    case False
    then have "d' = d0" using CommentViewSet_like_other[OF assms] g by simp
    then show ?thesis
      using False gp0 go0 f by simp
  qed
qed

lemma CommentViewSet_unlike_effect:
  assumes "CommentViewSet_unlike request pk' d = (r, d')"
  shows "(get_post k d' = get_post k d) \<and>
        (get_comment k d = Some y \<longrightarrow>
         get_comment k d' =
           Some (if k = pk' \<and> (\<exists>l. r = Unliked l)
                 then y\<lparr>c_likes_count := c_likes_count y - 1\<rparr> else y)) \<and>
        (get_comment pk' d = Some y \<longrightarrow> (\<exists>l. r = Unliked l) \<longrightarrow> 0 \<le> c_likes_count y - 1) \<and>
        db_karma_transactions d' = db_karma_transactions d"
proof -
  obtain user d0 where g: "get_current_user request d = (Some user, d0)"
    using get_current_user_Some by blast
  note f = get_current_user_frame[OF g]
  have gp0: "get_comment j d0 = get_comment j d" for j using f by (simp add: get_comment_def)
  have go0: "get_post j d0 = get_post j d" for j using f by (simp add: get_post_def)
  show ?thesis
  proof (cases "\<exists>l. r = Unliked l")
    case True
    then obtain l where r: "r = Unliked l" by blast
    from CommentViewSet_unlike_Unliked[OF assms[unfolded r]] g obtain x lk where
      x: "get_comment pk' d0 = Some x" and
      ok: "\<not> list_ex (\<lambda>x. c_id x = pk' \<and> c_likes_count x + (- 1) < 0) (db_comments d0)" and
      d': "d' = comment_unliked lk pk' d0"
      by auto
    have yid: "c_id y = k" if "get_comment k d = Some y" using that by (rule get_comment_id)
    have "get_post k d' = get_post k d"
      using go0 by (simp add: d' get_post_def comment_unliked_def)
    moreover have "get_comment k d' =
        Some (if k = pk' then y\<lparr>c_likes_count := c_likes_count y - 1\<rparr> else y)"
      if "get_comment k d = Some y"
      using that yid[OF that] gp0 by (auto simp: d' get_comment_comment_unliked)
    moreover have "0 \<le> c_likes_count y - 1" if "get_comment pk' d = Some y"
    proof -
      from that gp0 have "find (\<lambda>x. c_id x = pk') (db_comments d0) = Some y"
        by (simp add: get_comment_def)
      from find_key[OF this] ok show ?thesis
        by (auto simp: list_ex_iff)
    qed
    moreover have "db_karma_transactions d' = db_karma_transactions d"
      using f by (simp add: d' comment_unliked_def)
    ultimately show ?thesis
      using True by simp
  next
    case False
    then have "d' = d0" using CommentViewSet_unlike_other[OF assms] g by simp
    then show ?thesis
      using False gp0 go0 f by simp
  qed
qed

lemma find_append_Some:
  "find P xs = Some x \<Longrightarrow> find P (xs @ ys) = Some x"
  by (induction xs) auto

lemma PostViewSet_create_effect:
  assumes "PostViewSet_create now request d = (r, d')"
  shows "(get_post k d = Some y \<longrightarrow> get_post k d' = Some y) \<and>
         get_comment k d' = get_comment k d \<and>
         db_karma_transactions d' = db_karma_transactions d"
proof -
  obtain user d0 where g: "get_current_user request d = (Some user, d0)"
    using get_current_user_Some by blast
  note f = get_current_user_frame[OF g]
  show ?thesis
    using assms g f
    by (auto simp: PostViewSet_create_def Let_def get_post_def get_comment_def find_append_Some
             split: option.splits)
qed

lemma PostViewSet_comments_post_effect:
  assumes "PostViewSet_comments_post now request pk' d = (r, d')"
  shows "get_post k d' = get_post k d \<and>
         (get_comment k d = Some z \<longrightarrow> get_comment k d' = Some z) \<and>
         db_karma_transactions d' = db_karma_transactions d"
proof -
  obtain user d0 where g: "get_current_user request d = (Some user, d0)"
    using get_current_user_Some by blast
  note f = get_current_user_frame[OF g]
  show ?thesis
    using assms g f
    by (auto simp: PostViewSet_comments_post_def Let_def get_post_def get_comment_def
             comment_create_def find_append_Some
             split: option.splits if_splits)
qed

lemma CommentViewSet_create_effect:
  assumes "CommentViewSet_create now request d = (r, d')"
  shows "get_post k d' = get_post k d \<and>
         (get_comment k d = Some z \<longrightarrow> get_comment k d' = Some z) \<and>
         db_karma_transactions d' = db_karma_transactions d"
proof -
  obtain user d0 where g: "get_current_user request d = (Some user, d0)"
    using get_current_user_Some by blast
  note f = get_current_user_frame[OF g]
  show ?thesis
    using assms g f
    by (auto simp: CommentViewSet_create_def Let_def get_post_def get_comment_def
             comment_create_def find_append_Some
             split: option.splits if_splits sum.splits)
qed

lemma step_ledger:
  assumes "step c d = (r, d')"
  shows "db_karma_transactions d' = db_karma_transactions d \<or>
         (\<exists>t. db_karma_transactions d' = db_karma_transactions d @ [t] \<and>
              (k_amount t = 5 \<or> k_amount t = 1))"
proof (cases "call_op c")
  case CreatePost
  with assms PostViewSet_create_effect[of "call_now c" "call_request c" d r d']
  show ?thesis by (simp add: step_def)
next
  case (CreateComment pk)
  with assms PostViewSet_comments_post_effect[of "call_now c" "call_request c" pk d r d']
  show ?thesis by (simp add: step_def)
next
  case CommentCreate
  with assms CommentViewSet_create_effect[of "call_now c" "call_request c" d r d']
  show ?thesis by (simp add: step_def)
next
  case (Like tt pk)
  show ?thesis
  proof (cases tt)
    case TARGET_POST
    with Like assms have "PostViewSet_like (call_now c) (call_request c) pk d = (r, d')"
      by (simp add: step_def like_target_def)
    from PostViewSet_like_effect[OF this] show ?thesis by blast
  next
    case TARGET_COMMENT
    with Like assms have "CommentViewSet_like (call_now c) (call_request c) pk d = (r, d')"
      by (simp add: step_def like_target_def)
    from CommentViewSet_like_effect[OF this] show ?thesis by blast
  qed
next
  case (Unlike tt pk)
  show ?thesis
  proof (cases tt)
    case TARGET_POST
    with Unlike assms have "PostViewSet_unlike (call_request c) pk d = (r, d')"
      by (simp add: step_def unlike_target_def)
    from PostViewSet_unlike_effect[OF this] show ?thesis by blast
  next
    case TARGET_COMMENT
    with Unlike assms have "CommentViewSet_unlike (call_request c) pk d = (r, d')"
      by (simp add: step_def unlike_target_def)
    from CommentViewSet_unlike_effect[OF this] show ?thesis by blast
  qed
qed

lemma run_ledger:
  assumes "run cs d = (trace, d')"
  shows "\<exists>new. db_karma_transactions d' = db_karma_transactions d @ new \<and>
               (\<forall>t\<in>set new. k_amount t = 5 \<or> k_amount t = 1)"
  using assms
proof (induction cs arbitrary: d trace d')
  case Nil
  then show ?case by simp
next
  case (Cons c cs)
  obtain r d1 where s: "step c d = (r, d1)" by (cases "step c d")
  obtain tr d2 where t: "run cs d1 = (tr, d2)" by (cases "run cs d1")
  from Cons.prems s t have d2: "d' = d2" by simp
  from Cons.IH[OF t] obtain new where
    n: "db_karma_transactions d2 = db_karma_transactions d1 @ new"
       "\<forall>t\<in>set new. k_amount t = 5 \<or> k_amount t = 1"
    by blast
  from step_ledger[OF s] show ?case
  proof
    assume "db_karma_transactions d1 = db_karma_transactions d"
    with n d2 show ?thesis by auto
  next
    assume "\<exists>t. db_karma_transactions d1 = db_karma_transactions d @ [t] \<and>
                (k_amount t = 5 \<or> k_amount t = 1)"
    then obtain t0 where "db_karma_transactions d1 = db_karma_transactions d @ [t0]"
        "k_amount t0 = 5 \<or> k_amount t0 = 1"
      by blast
    with n d2 have "db_karma_transactions d' = db_karma_transactions d @ (t0 # new) \<and>
        (\<forall>t\<in>set (t0 # new). k_amount t = 5 \<or> k_amount t = 1)"
      by simp
    then show ?thesis by blast
  qed
qed

lemma is_Liked_iff:
  "(case r of Liked likes karma \<Rightarrow> True | _ \<Rightarrow> False) \<longleftrightarrow> (\<exists>l a. r = Liked l a)"
  by (cases r) auto

lemma is_Unliked_iff:
  "(case r of Unliked likes \<Rightarrow> True | _ \<Rightarrow> False) \<longleftrightarrow> (\<exists>l. r = Unliked l)"
  by (cases r) auto

lemma likes_count_post:
  "likes_count TARGET_POST pk d = Some n \<longleftrightarrow> (\<exists>y. get_post pk d = Some y \<and> p_likes_count y = n)"
  by (auto simp: likes_count_def)

lemma likes_count_comment:
  "likes_count TARGET_COMMENT pk d = Some n \<longleftrightarrow>
     (\<exists>y. get_comment pk d = Some y \<and> c_likes_count y = n)"
  by (auto simp: likes_count_def)

lemma step_likes_count:
  assumes s: "step c d = (r, d')" and n: "likes_count tt pk d = Some n"
  shows "likes_count tt pk d' =
           Some (n + (if call_op c = Like tt pk \<and> (\<exists>l a. r = Liked l a) then 1 else 0)
                   - (if call_op c = Unlike tt pk \<and> (\<exists>l. r = Unliked l) then 1 else 0)) \<and>
         (call_op c = Unlike tt pk \<and> (\<exists>l. r = Unliked l) \<longrightarrow> 0 \<le> n - 1)"
proof (cases "call_op c")
  case CreatePost
  with s have "PostViewSet_create (call_now c) (call_request c) d = (r, d')"
    by (simp add: step_def)
  from PostViewSet_create_effect[OF this] n CreatePost show ?thesis
    by (cases tt) (auto simp: likes_count_def)
next
  case (CreateComment pk')
  with s have "PostViewSet_comments_post (call_now c) (call_request c) pk' d = (r, d')"
    by (simp add: step_def)
  from PostViewSet_comments_post_effect[OF this] n CreateComment show ?thesis
    by (cases tt) (auto simp: likes_count_def)
next
  case CommentCreate
  with s have "CommentViewSet_create (call_now c) (call_request c) d = (r, d')"
    by (simp add: step_def)
  from CommentViewSet_create_effect[OF this] n CommentCreate show ?thesis
    by (cases tt) (auto simp: likes_count_def)
next
  case (Like tt' pk')
  show ?thesis
  proof (cases tt')
    case TARGET_POST
    with Like s have v: "PostViewSet_like (call_now c) (call_request c) pk' d = (r, d')"
      by (simp add: step_def like_target_def)
    show ?thesis
    proof (cases tt)
      case tp: TARGET_POST
      from n tp obtain y where y: "get_post pk d = Some y" "p_likes_count y = n"
        by (auto simp: likes_count_post)
      from PostViewSet_like_effect[OF v, of pk y] y(1)
      have "get_post pk d' =
          Some (if pk = pk' \<and> (\<exists>l a. r = Liked l a)
                then y\<lparr>p_likes_count := p_likes_count y + 1\<rparr> else y)"
        by blast
      with y(2) Like TARGET_POST tp show ?thesis
        by (auto simp: likes_count_def)
    next
      case tc: TARGET_COMMENT
      from PostViewSet_like_effect[OF v, of pk] have "get_comment pk d' = get_comment pk d"
        by blast
      with n Like TARGET_POST tc show ?thesis
        by (simp add: likes_count_def)
    qed
  next
    case TARGET_COMMENT
    with Like s have v: "CommentViewSet_like (call_now c) (call_request c) pk' d = (r, d')"
      by (simp add: step_def like_target_def)
    show ?thesis
    proof (cases tt)
      case tc: TARGET_COMMENT
      from n tc obtain y where y: "get_comment pk d = Some y" "c_likes_count y = n"
        by (auto simp: likes_count_comment)
      from CommentViewSet_like_effect[OF v, of pk y] y(1)
      have "get_comment pk d' =
          Some (if pk = pk' \<and> (\<exists>l a. r = Liked l a)
                then y\<lparr>c_likes_count := c_likes_count y + 1\<rparr> else y)"
        by blast
      with y(2) Like TARGET_COMMENT tc show ?thesis
        by (auto simp: likes_count_def)
    next
      case tp: TARGET_POST
      from CommentViewSet_like_effect[OF v, of pk] have "get_post pk d' = get_post pk d"
        by blast
      with n Like TARGET_COMMENT tp show ?thesis
        by (simp add: likes_count_def)
    qed
  qed
next
  case (Unlike tt' pk')
  show ?thesis
  proof (cases tt')
    case TARGET_POST
    with Unlike s have v: "PostViewSet_unlike (call_request c) pk' d = (r, d')"
      by (simp add: step_def unlike_target_def)
    show ?thesis
    proof (cases tt)
      case tp: TARGET_POST
      from n tp obtain y where y: "get_post pk d = Some y" "p_likes_count y = n"
        by (auto simp: likes_count_post)
      from PostViewSet_unlike_effect[OF v, of pk y] y(1)
      have a: "get_post pk d' =
          Some (if pk = pk' \<and> (\<exists>l. r = Unliked l)
                then y\<lparr>p_likes_count := p_likes_count y - 1\<rparr> else y)"
        and b: "get_post pk' d = Some y \<longrightarrow> (\<exists>l. r = Unliked l) \<longrightarrow> 0 \<le> p_likes_count y - 1"
        by blast+
      from a b y Unlike TARGET_POST tp show ?thesis
        by (auto simp: likes_count_def)
    next
      case tc: TARGET_COMMENT
      from PostViewSet_unlike_effect[OF v, of pk] have "get_comment pk d' = get_comment pk d"
        by blast
      with n Unlike TARGET_POST tc show ?thesis
        by (simp add: likes_count_def)
    qed
  next
    case TARGET_COMMENT
    with Unlike s have v: "CommentViewSet_unlike (call_request c) pk' d = (r, d')"
      by (simp add: step_def unlike_target_def)
    show ?thesis
    proof (cases tt)
      case tc: TARGET_COMMENT
      from n tc obtain y where y: "get_comment pk d = Some y" "c_likes_count y = n"
        by (auto simp: likes_count_comment)
      from CommentViewSet_unlike_effect[OF v, of pk y] y(1)
      have a: "get_comment pk d' =
          Some (if pk = pk' \<and> (\<exists>l. r = Unliked l)
                then y\<lparr>c_likes_count := c_likes_count y - 1\<rparr> else y)"
        and b: "get_comment pk' d = Some y \<longrightarrow> (\<exists>l. r = Unliked l) \<longrightarrow> 0 \<le> c_likes_count y - 1"
        by blast+
      from a b y Unlike TARGET_COMMENT tc show ?thesis
        by (auto simp: likes_count_def)
    next
      case tp: TARGET_POST
      from CommentViewSet_unlike_effect[OF v, of pk] have "get_post pk d' = get_post pk d"
        by blast
      with n Unlike TARGET_COMMENT tp show ?thesis
        by (simp add: likes_count_def)
    qed
  qed
qed

lemma run_likes_count:
  assumes "run cs d = (trace, d')" and "likes_count tt pk d = Some n" and "0 \<le> n"
  shows "likes_count tt pk d' =
           Some (n + int (like_creates tt pk trace) - int (like_deletes tt pk trace)) \<and>
         0 \<le> n + int (like_creates tt pk trace) - int (like_deletes tt pk trace)"
  using assms
proof (induction cs arbitrary: d trace d' n)
  case Nil
  then show ?case by (simp add: like_creates_def like_deletes_def)
next
  case (Cons c cs)
  obtain r d1 where s: "step c d = (r, d1)" by (cases "step c d")
  obtain tr d2 where t: "run cs d1 = (tr, d2)" by (cases "run cs d1")
  from Cons.prems(1) s t have e: "d' = d2" "trace = (c, r) # tr" by simp_all
  let ?a = "if call_op c = Like tt pk \<and> (\<exists>l a. r = Liked l a) then 1 else (0::int)"
  let ?b = "if call_op c = Unlike tt pk \<and> (\<exists>l. r = Unliked l) then 1 else (0::int)"
  from step_likes_count[OF s Cons.prems(2)]
  have n1: "likes_count tt pk d1 = Some (n + ?a - ?b)"
    and nn: "call_op c = Unlike tt pk \<and> (\<exists>l. r = Unliked l) \<longrightarrow> 0 \<le> n - 1"
    by blast+
  have pos: "0 \<le> n + ?a - ?b" using nn Cons.prems(3) by auto
  have ca: "int (like_creates tt pk trace) = ?a + int (like_creates tt pk tr)"
    by (simp add: e like_creates_def is_Liked_iff)
  have cb: "int (like_deletes tt pk trace) = ?b + int (like_deletes tt pk tr)"
    by (simp add: e like_deletes_def is_Unliked_iff)
  from Cons.IH[OF t n1 pos] show ?case
    unfolding e(1) ca cb by (simp add: algebra_simps)
qed

lemma length_filter_remove1:
  "l \<in> set xs \<Longrightarrow>
   int (length (filter P (remove1 l xs))) = int (length (filter P xs)) - (if P l then 1 else 0)"
  by (induction xs) auto

lemma create_likes:
  "PostViewSet_create now request d = (r, d') \<Longrightarrow> db_likes d' = db_likes d"
  "PostViewSet_comments_post now request pk' d = (r, d') \<Longrightarrow> db_likes d' = db_likes d"
  "CommentViewSet_create now request d = (r, d') \<Longrightarrow> db_likes d' = db_likes d"
proof -
  obtain user d0 where g: "get_current_user request d = (Some user, d0)"
    using get_current_user_Some by blast
  note f = get_current_user_frame[OF g]
  show "PostViewSet_create now request d = (r, d') \<Longrightarrow> db_likes d' = db_likes d"
    using g f by (auto simp: PostViewSet_create_def Let_def split: option.splits)
  show "PostViewSet_comments_post now request pk' d = (r, d') \<Longrightarrow> db_likes d' = db_likes d"
    using g f
    by (auto simp: PostViewSet_comments_post_def Let_def comment_create_def
             split: option.splits if_splits)
  show "CommentViewSet_create now request d = (r, d') \<Longrightarrow> db_likes d' = db_likes d"
    using g f
    by (auto simp: CommentViewSet_create_def Let_def comment_create_def
             split: option.splits if_splits sum.splits)
qed

lemma like_target_likes:
  assumes "like_target now request tt' pk' d = (r, d')"
  shows "int (length (like_rows tt pk d')) =
           int (length (like_rows tt pk d)) +
           (if tt' = tt \<and> pk' = pk \<and> (\<exists>l a. r = Liked l a) then 1 else 0)"
proof (cases "\<exists>l a. r = Liked l a")
  case True
  then obtain l a where r: "r = Liked l a" by blast
  have "\<exists>user. db_likes d' =
      db_likes d @ [\<lparr>l_user_id = user, l_target_type = tt', l_target_id = pk'\<rparr>]"
  proof (cases tt')
    case TARGET_POST
    with assms r have "PostViewSet_like now request pk' d = (Liked l a, d')"
      by (simp add: like_target_def)
    from PostViewSet_like_Liked[OF this] obtain user d0 x where
      g: "get_current_user request d = (Some user, d0)" and x: "get_post pk' d0 = Some x" and
      d': "d' = post_liked now user x d0"
      by blast
    from get_current_user_frame(3)[OF g] get_post_id[OF x] TARGET_POST show ?thesis
      by (simp add: d' post_liked_def)
  next
    case TARGET_COMMENT
    with assms r have "CommentViewSet_like now request pk' d = (Liked l a, d')"
      by (simp add: like_target_def)
    from CommentViewSet_like_Liked[OF this] obtain user d0 x where
      g: "get_current_user request d = (Some user, d0)" and x: "get_comment pk' d0 = Some x" and
      d': "d' = comment_liked now user x d0"
      by blast
    from get_current_user_frame(3)[OF g] get_comment_id[OF x] TARGET_COMMENT show ?thesis
      by (simp add: d' comment_liked_def)
  qed
  with True show ?thesis by (auto simp: like_rows_def)
next
  case False
  have "d' = snd (get_current_user request d)"
  proof (cases tt')
    case TARGET_POST
    with assms have "PostViewSet_like now request pk' d = (r, d')" by (simp add: like_target_def)
    from PostViewSet_like_other[OF this] False show ?thesis by simp
  next
    case TARGET_COMMENT
    with assms have "CommentViewSet_like now request pk' d = (r, d')"
      by (simp add: like_target_def)
    from CommentViewSet_like_other[OF this] False show ?thesis by simp
  qed
  moreover have "db_likes (snd (get_current_user request d)) = db_likes d"
    using get_current_user_frame(3)[of request d] by (cases "get_current_user request d") simp
  ultimately show ?thesis using False by (simp add: like_rows_def)
qed

lemma unlike_target_likes:
  assumes "unlike_target request tt' pk' d = (r, d')"
  shows "int (length (like_rows tt pk d')) =
           int (length (like_rows tt pk d)) -
           (if tt' = tt \<and> pk' = pk \<and> (\<exists>l. r = Unliked l) then 1 else 0)"
proof (cases "\<exists>l. r = Unliked l")
  case True
  then obtain l where r: "r = Unliked l" by blast
  have "\<exists>user. \<lparr>l_user_id = user, l_target_type = tt', l_target_id = pk'\<rparr> \<in> set (db_likes d) \<and>
      db_likes d' =
      remove1 \<lparr>l_user_id = user, l_target_type = tt', l_target_id = pk'\<rparr> (db_likes d)"
  proof (cases tt')
    case TARGET_POST
    with assms r have "PostViewSet_unlike request pk' d = (Unliked l, d')"
      by (simp add: unlike_target_def)
    from PostViewSet_unlike_Unliked[OF this] obtain user d0 lk where
      g: "get_current_user request d = (Some user, d0)" and
      lk: "like_first user TARGET_POST pk' d0 = Some lk" and
      d': "d' = post_unliked lk pk' d0"
      by blast
    from get_current_user_frame(3)[OF g] like_first_Some[OF lk] TARGET_POST show ?thesis
      by (auto simp: d' post_unliked_def)
  next
    case TARGET_COMMENT
    with assms r have "CommentViewSet_unlike request pk' d = (Unliked l, d')"
      by (simp add: unlike_target_def)
    from CommentViewSet_unlike_Unliked[OF this] obtain user d0 lk where
      g: "get_current_user request d = (Some user, d0)" and
      lk: "like_first user TARGET_COMMENT pk' d0 = Some lk" and
      d': "d' = comment_unliked lk pk' d0"
      by blast
    from get_current_user_frame(3)[OF g] like_first_Some[OF lk] TARGET_COMMENT show ?thesis
      by (auto simp: d' comment_unliked_def)
  qed
  then obtain user where
    m: "\<lparr>l_user_id = user, l_target_type = tt', l_target_id = pk'\<rparr> \<in> set (db_likes d)" and
    e: "db_likes d' =
        remove1 \<lparr>l_user_id = user, l_target_type = tt', l_target_id = pk'\<rparr> (db_likes d)"
    by blast
  show ?thesis
    unfolding like_rows_def e length_filter_remove1[OF m] using True by auto
next
  case False
  have "d' = snd (get_current_user request d)"
  proof (cases tt')
    case TARGET_POST
    with assms have "PostViewSet_unlike request pk' d = (r, d')" by (simp add: unlike_target_def)
    from PostViewSet_unlike_other[OF this] False show ?thesis by simp
  next
    case TARGET_COMMENT
    with assms have "CommentViewSet_unlike request pk' d = (r, d')"
      by (simp add: unlike_target_def)
    from CommentViewSet_unlike_other[OF this] False show ?thesis by simp
  qed
  moreover have "db_likes (snd (get_current_user request d)) = db_likes d"
    using get_current_user_frame(3)[of request d] by (cases "get_current_user request d") simp
  ultimately show ?thesis using False by (simp add: like_rows_def)
qed

lemma step_like_rows:
  assumes s: "step c d = (r, d')"
  shows "int (length (like_rows tt pk d')) =
           int (length (like_rows tt pk d))
             + (if call_op c = Like tt pk \<and> (\<exists>l a. r = Liked l a) then 1 else 0)
             - (if call_op c = Unlike tt pk \<and> (\<exists>l. r = Unliked l) then 1 else 0)"
proof (cases "call_op c")
  case CreatePost
  with s create_likes(1)[of "call_now c" "call_request c" d r d'] show ?thesis
    by (simp add: step_def like_rows_def)
next
  case (CreateComment pk')
  with s create_likes(2)[of "call_now c" "call_request c" pk' d r d'] show ?thesis
    by (simp add: step_def like_rows_def)
next
  case CommentCreate
  with s create_likes(3)[of "call_now c" "call_request c" d r d'] show ?thesis
    by (simp add: step_def like_rows_def)
next
  case (Like tt' pk')
  with s have "like_target (call_now c) (call_request c) tt' pk' d = (r, d')"
    by (simp add: step_def)
  from like_target_likes[OF this, of tt pk] Like show ?thesis by auto
next
  case (Unlike tt' pk')
  with s have "unlike_target (call_request c) tt' pk' d = (r, d')"
    by (simp add: step_def)
  from unlike_target_likes[OF this, of tt pk] Unlike show ?thesis by auto
qed

lemma run_like_rows:
  assumes "run cs d = (trace, d')"
  shows "int (length (like_rows tt pk d')) =
           int (length (like_rows tt pk d)) + int (like_creates tt pk trace)
             - int (like_deletes tt pk trace)"
  using assms
proof (induction cs arbitrary: d trace d')
  case Nil
  then show ?case by (simp add: like_creates_def like_deletes_def)
next
  case (Cons c cs)
  obtain r d1 where s: "step c d = (r, d1)" by (cases "step c d")
  obtain tr d2 where t: "run cs d1 = (tr, d2)" by (cases "run cs d1")
  from Cons.prems(1) s t have e: "d' = d2" "trace = (c, r) # tr" by simp_all
  let ?a = "if call_op c = Like tt pk \<and> (\<exists>l a. r = Liked l a) then 1 else (0::int)"
  let ?b = "if call_op c = Unlike tt pk \<and> (\<exists>l. r = Unliked l) then 1 else (0::int)"
  have ca: "int (like_creates tt pk trace) = ?a + int (like_creates tt pk tr)"
    by (simp add: e like_creates_def is_Liked_iff)
  have cb: "int (like_deletes tt pk trace) = ?b + int (like_deletes tt pk tr)"
    by (simp add: e like_deletes_def is_Unliked_iff)
  from Cons.IH[OF t] step_like_rows[OF s, of tt pk] show ?case
    unfolding e(1) ca cb by (simp add: algebra_simps)
qed

section \<open>Counter conservation and the amounts of the ledger\<close>

lemma example_run: "run example_calls example_db = (example_trace, example_db_final)"
  by (simp add: example_calls_def example_trace_def example_db_final_def example_db_def
      step_def view_defs store_defs bob_request_def alice_request_def)

lemma example_counts:
  "like_creates TARGET_POST 1 example_trace = 1"
  "like_deletes TARGET_POST 1 example_trace = 1"
  "like_creates TARGET_COMMENT 1 example_trace = 2"
  "like_deletes TARGET_COMMENT 1 example_trace = 1"
  by (simp_all add: like_creates_def like_deletes_def example_trace_def example_calls_def)

text \<open>
  C8. Run any sequence of calls (likes and unlikes of any targets by any requests, and
  creations among them) from a store in which the target exists with a count
  \<^verbatim>\<open>c0\<close> that is not negative. Afterwards the \<^verbatim>\<open>likes_count\<close> of the target is
  \<^verbatim>\<open>c0\<close> plus the number of likes of this target that succeeded minus the number of
  unlikes of this target that succeeded, it is not negative, and the number of like
  rows of the target has changed by the same difference. For a target as it is
  created, with count 0 and no like row, the count is the number of creations minus the
  number of deletions, and is the number of like rows.
\<close>

theorem counter_conservation:
  assumes "run calls d = (trace, d')"
    and "likes_count tt pk d = Some c0"
    and "0 \<le> c0"
  shows "likes_count tt pk d' =
           Some (c0 + int (like_creates tt pk trace) - int (like_deletes tt pk trace)) \<and>
         0 \<le> c0 + int (like_creates tt pk trace) - int (like_deletes tt pk trace) \<and>
         int (length (like_rows tt pk d')) =
           int (length (like_rows tt pk d)) + int (like_creates tt pk trace)
             - int (like_deletes tt pk trace)"
  using run_likes_count[OF assms] run_like_rows[OF assms(1), of tt pk] by simp

theorem counter_conservation_witness:
  "run example_calls example_db = (example_trace, example_db_final) \<and>
   likes_count TARGET_POST 1 example_db = Some 0 \<and>
   like_rows TARGET_POST 1 example_db = [] \<and>
   like_creates TARGET_POST 1 example_trace = 1 \<and>
   like_deletes TARGET_POST 1 example_trace = 1 \<and>
   likes_count TARGET_POST 1 example_db_final = Some 0 \<and>
   length (like_rows TARGET_POST 1 example_db_final) = 0 \<and>
   likes_count TARGET_COMMENT 1 example_db = Some 0 \<and>
   like_rows TARGET_COMMENT 1 example_db = [] \<and>
   like_creates TARGET_COMMENT 1 example_trace = 2 \<and>
   like_deletes TARGET_COMMENT 1 example_trace = 1 \<and>
   likes_count TARGET_COMMENT 1 example_db_final = Some 1 \<and>
   length (like_rows TARGET_COMMENT 1 example_db_final) = 1"
proof -
  have p0: "likes_count TARGET_POST 1 example_db = Some 0"
    by (simp add: likes_count_def get_post_def example_db_def)
  have c0: "likes_count TARGET_COMMENT 1 example_db = Some 0"
    by (simp add: likes_count_def get_comment_def example_db_def)
  have r0: "like_rows TARGET_POST 1 example_db = []" "like_rows TARGET_COMMENT 1 example_db = []"
    by (simp_all add: like_rows_def example_db_def)
  from counter_conservation[OF example_run p0] counter_conservation[OF example_run c0]
    example_run p0 c0 r0 example_counts
  show ?thesis by simp
qed

text \<open>
  C10. Whatever calls are run, the ledger afterwards is the ledger before followed by
  the transactions written meanwhile, and each of those has the amount 5 or the
  amount 1, so a positive one: no call writes a transaction with an amount of zero
  or less, although the column is a signed integer.
\<close>

theorem karma_amounts_positive:
  assumes "run calls d = (trace, d')"
  shows "\<exists>new. db_karma_transactions d' = db_karma_transactions d @ new \<and>
               (\<forall>t\<in>set new. (k_amount t = 5 \<or> k_amount t = 1) \<and> 0 < k_amount t)"
proof -
  from run_ledger[OF assms] obtain new where
    "db_karma_transactions d' = db_karma_transactions d @ new"
    "\<forall>t\<in>set new. k_amount t = 5 \<or> k_amount t = 1"
    by blast
  then have "db_karma_transactions d' = db_karma_transactions d @ new \<and>
      (\<forall>t\<in>set new. (k_amount t = 5 \<or> k_amount t = 1) \<and> 0 < k_amount t)"
    by auto
  then show ?thesis by blast
qed

theorem karma_amounts_positive_witness:
  "run example_calls example_db = (example_trace, example_db_final) \<and>
   db_karma_transactions example_db_final = db_karma_transactions example_db @
     [\<lparr>k_user_id = 1, k_amount = 5, k_reason = REASON_POST_LIKE, k_source_id = 1,
       k_liker_id = Some 2, k_created_at = 1000\<rparr>,
      \<lparr>k_user_id = 2, k_amount = 1, k_reason = REASON_COMMENT_LIKE, k_source_id = 1,
       k_liker_id = Some 1, k_created_at = 1500\<rparr>,
      \<lparr>k_user_id = 2, k_amount = 1, k_reason = REASON_COMMENT_LIKE, k_source_id = 1,
       k_liker_id = Some 2, k_created_at = 3500\<rparr>] \<and>
   map k_amount (db_karma_transactions example_db_final) = [5, 1, 1]"
proof -
  have e: "db_karma_transactions example_db = []" by (simp add: example_db_def)
  from karma_amounts_positive[OF example_run] e example_run show ?thesis
    by (simp add: example_db_final_def)
qed

section \<open>Properties of the leaderboard\<close>

lemma karma_24h_sum:
  "karma_24h rows u = sum_list (map k_amount (filter (\<lambda>t. k_user_id t = u) rows))"
  by (simp add: karma_24h_def Sum_def Coalesce_def)

lemma karma_24h_window:
  "karma_24h (filter (\<lambda>t. now - timedelta_hours 24 \<le> k_created_at t) (db_karma_transactions d)) u
     = window_karma now d u"
  by (simp add: karma_24h_sum window_karma_def conj_commute)

lemma leaderboard_data_set:
  assumes "(u, k) \<in> set (leaderboard_data now d)"
  shows "k = window_karma now d u" "0 < k"
    "\<exists>t\<in>set (db_karma_transactions d). k_user_id t = u \<and> now - timedelta_hours 24 \<le> k_created_at t"
proof -
  let ?rows = "filter (\<lambda>t. now - timedelta_hours 24 \<le> k_created_at t) (db_karma_transactions d)"
  from assms have "(u, k) \<in> set (filter (\<lambda>e. 0 < snd e)
        (map (\<lambda>u. (u, karma_24h ?rows u)) (remdups (map k_user_id ?rows))))"
    unfolding leaderboard_data_def Let_def by (auto dest: in_set_takeD)
  then have k: "k = karma_24h ?rows u" and p: "0 < k" and u: "u \<in> k_user_id ` set ?rows"
    by auto
  show "k = window_karma now d u" using k by (simp add: karma_24h_window)
  show "0 < k" by (rule p)
  show "\<exists>t\<in>set (db_karma_transactions d). k_user_id t = u \<and> now - timedelta_hours 24 \<le> k_created_at t"
    using u by auto
qed

lemma leaderboard_data_sorted:
  "sorted_wrt (\<lambda>a b. snd b \<le> snd a) (leaderboard_data now d)"
proof -
  have "sorted (map (\<lambda>e. - snd e) (sort_key (\<lambda>e. - snd e) xs))" for xs :: "(nat \<times> int) list"
    by (rule sorted_sort_key)
  then have "sorted_wrt (\<lambda>a b. snd b \<le> snd a) (sort_key (\<lambda>e. - snd e) xs)"
    for xs :: "(nat \<times> int) list"
    by (simp add: sorted_wrt_map)
  then show ?thesis
    unfolding leaderboard_data_def Let_def by (simp add: sorted_wrt_take)
qed

lemma leaderboard_data_length: "length (leaderboard_data now d) \<le> 5"
  unfolding leaderboard_data_def Let_def by simp

lemma leaderboard_data_distinct: "distinct (map fst (leaderboard_data now d))"
proof -
  let ?rows = "filter (\<lambda>t. now - timedelta_hours 24 \<le> k_created_at t) (db_karma_transactions d)"
  let ?g = "map (\<lambda>u. (u, karma_24h ?rows u)) (remdups (map k_user_id ?rows))"
  have "distinct (map fst ?g)" by (simp add: comp_def)
  then have "distinct (map fst (filter (\<lambda>e. 0 < snd e) ?g))"
    by (rule distinct_map_filter)
  then have d1: "distinct (filter (\<lambda>e. 0 < snd e) ?g)" and
    i1: "inj_on fst (set (filter (\<lambda>e. 0 < snd e) ?g))"
    by (simp_all add: distinct_map)
  have "distinct (map fst (sort_key (\<lambda>e. - snd e) (filter (\<lambda>e. 0 < snd e) ?g)))"
    using d1 i1 by (simp add: distinct_map)
  then have "distinct (take 5 (map fst (sort_key (\<lambda>e. - snd e) (filter (\<lambda>e. 0 < snd e) ?g))))"
    by (rule distinct_take)
  then show ?thesis
    unfolding leaderboard_data_def Let_def by (simp add: take_map)
qed

lemma leaderboard_data_cong:
  "db_karma_transactions d = db_karma_transactions d' \<Longrightarrow>
   leaderboard_data now d = leaderboard_data now d'"
  by (simp add: leaderboard_data_def)

lemma dict_foldl_other:
  "k \<notin> u_id ` set us \<Longrightarrow> foldl (\<lambda>m u. m(u_id u \<mapsto> u)) m0 us k = m0 k"
  by (induction us arbitrary: m0) auto

lemma dict_foldl_Some:
  "foldl (\<lambda>m u. m(u_id u \<mapsto> u)) m0 us k = Some usr \<Longrightarrow>
   m0 k = Some usr \<or> (usr \<in> set us \<and> u_id usr = k)"
  by (induction us arbitrary: m0) (force split: if_splits)+

lemma dict_foldl_dom:
  "k \<in> u_id ` set us \<Longrightarrow> foldl (\<lambda>m u. m(u_id u \<mapsto> u)) m0 us k \<noteq> None"
proof (induction us arbitrary: m0)
  case Nil
  then show ?case by simp
next
  case (Cons a us)
  show ?case
  proof (cases "k \<in> u_id ` set us")
    case True
    then show ?thesis using Cons.IH by simp
  next
    case False
    with Cons.prems have k: "u_id a = k" by auto
    have "foldl (\<lambda>m u. m(u_id u \<mapsto> u)) m0 (a # us) k =
          foldl (\<lambda>m u. m(u_id u \<mapsto> u)) (m0(u_id a \<mapsto> a)) us k"
      by (simp only: foldl_Cons)
    also have "\<dots> = (m0(u_id a \<mapsto> a)) k"
      using False by (rule dict_foldl_other)
    also have "\<dots> = Some a" using k by simp
    finally show ?thesis by (simp only: option.distinct not_False_eq_True)
  qed
qed

lemma users_by_id_Some:
  "users_by_id ids d k = Some usr \<Longrightarrow> u_id usr = k"
  unfolding users_by_id_def by (drule dict_foldl_Some) auto

lemma users_by_id_None:
  "users_by_id ids d k = None \<longleftrightarrow> \<not> (k \<in> set ids \<and> k \<in> u_id ` set (db_users d))"
proof
  assume "users_by_id ids d k = None"
  then show "\<not> (k \<in> set ids \<and> k \<in> u_id ` set (db_users d))"
    unfolding users_by_id_def
    using dict_foldl_dom[of k "filter (\<lambda>u. u_id u \<in> set ids) (db_users d)" Map.empty]
    by auto
next
  assume "\<not> (k \<in> set ids \<and> k \<in> u_id ` set (db_users d))"
  then have "k \<notin> u_id ` set (filter (\<lambda>u. u_id u \<in> set ids) (db_users d))" by auto
  then show "users_by_id ids d k = None"
    unfolding users_by_id_def by (simp add: dict_foldl_other)
qed

lemma map_map_filter:
  "(\<And>x. x \<in> set xs \<Longrightarrow> map_option f (g x) = (if P x then Some (h x) else None)) \<Longrightarrow>
   map f (List.map_filter g xs) = map h (filter P xs)"
proof (induction xs)
  case Nil
  then show ?case by simp
next
  case (Cons x xs)
  from Cons.prems[of x] have "map_option f (g x) = (if P x then Some (h x) else None)" by simp
  moreover have "map f (List.map_filter g xs) = map h (filter P xs)"
    using Cons by simp
  ultimately show ?case by (cases "g x") (auto split: if_splits)
qed

lemma leaderboard_rows_eq:
  "leaderboard_rows now d =
     map (\<lambda>re. (fst (snd re), snd (snd re), fst re))
         (filter (\<lambda>re. fst (snd re) \<in> u_id ` set (db_users d))
                 (enumerate 1 (leaderboard_data now d)))"
proof -
  let ?data = "leaderboard_data now d"
  let ?users = "users_by_id (map fst ?data) d"
  have "map_option (\<lambda>e. (u_id (le_user e), le_karma_24h e, le_rank e))
          (case ?users (fst (snd re)) of
             Some user \<Rightarrow> Some \<lparr>le_user = user, le_karma_24h = snd (snd re), le_rank = fst re\<rparr>
           | None \<Rightarrow> None) =
        (if fst (snd re) \<in> u_id ` set (db_users d)
         then Some (fst (snd re), snd (snd re), fst re) else None)"
    if "re \<in> set (enumerate 1 ?data)" for re
  proof (cases "?users (fst (snd re))")
    case None
    moreover have "fst (snd re) \<in> set (map fst ?data)"
    proof -
      from that have i: "fst re - 1 < length ?data" "?data ! (fst re - 1) = snd re"
        by (auto simp: in_set_enumerate_eq)
      from nth_mem[OF i(1)] i(2) have "snd re \<in> set ?data" by simp
      then show ?thesis by force
    qed
    ultimately have "fst (snd re) \<notin> u_id ` set (db_users d)"
      by (simp add: users_by_id_None)
    with None show ?thesis by simp
  next
    case (Some usr)
    then have "u_id usr = fst (snd re)" by (rule users_by_id_Some)
    moreover from Some have "users_by_id (map fst ?data) d (fst (snd re)) \<noteq> None" by simp
    then have "fst (snd re) \<in> u_id ` set (db_users d)" by (simp add: users_by_id_None)
    ultimately show ?thesis using Some by simp
  qed
  then show ?thesis
    unfolding leaderboard_rows_def LeaderboardView_get_def Let_def
    by (rule map_map_filter)
qed

lemma leaderboard_data_top:
  assumes p: "0 < window_karma now d u" and n: "u \<notin> fst ` set (leaderboard_data now d)"
  shows "length (leaderboard_data now d) = 5"
    and "\<forall>e\<in>set (leaderboard_data now d). window_karma now d u \<le> snd e"
proof -
  let ?rows = "filter (\<lambda>t. now - timedelta_hours 24 \<le> k_created_at t) (db_karma_transactions d)"
  define xs where "xs = sort_key (\<lambda>e. - snd e) (filter (\<lambda>e. 0 < snd e)
      (map (\<lambda>u. (u, karma_24h ?rows u)) (remdups (map k_user_id ?rows))))"
  have data: "leaderboard_data now d = take 5 xs"
    by (simp add: leaderboard_data_def Let_def xs_def)
  have "filter (\<lambda>t. k_user_id t = u) ?rows \<noteq> []"
  proof
    assume "filter (\<lambda>t. k_user_id t = u) ?rows = []"
    then have "karma_24h ?rows u = 0" by (simp add: karma_24h_sum)
    with p show False by (simp add: karma_24h_window)
  qed
  then have "u \<in> k_user_id ` set ?rows"
    by (auto simp: filter_empty_conv)
  then have "(u, window_karma now d u) \<in> set xs"
    using p by (auto simp: karma_24h_window xs_def)
  then have "(u, window_karma now d u) \<in> set (take 5 xs @ drop 5 xs)" by simp
  then have "(u, window_karma now d u) \<in> set (take 5 xs) \<or>
             (u, window_karma now d u) \<in> set (drop 5 xs)"
    by (simp only: set_append Un_iff)
  moreover have "(u, window_karma now d u) \<notin> set (take 5 xs)"
  proof
    assume "(u, window_karma now d u) \<in> set (take 5 xs)"
    then have "fst (u, window_karma now d u) \<in> fst ` set (leaderboard_data now d)"
      unfolding data by (rule imageI)
    with n show False by simp
  qed
  ultimately have m: "(u, window_karma now d u) \<in> set (drop 5 xs)" by blast
  then have "drop 5 xs \<noteq> []" by auto
  then show "length (leaderboard_data now d) = 5" by (simp add: data)
  have "sorted (map (\<lambda>e. - snd e) xs)" unfolding xs_def by (rule sorted_sort_key)
  then have "sorted_wrt (\<lambda>a b. snd b \<le> snd a) (take 5 xs @ drop 5 xs)"
    by (simp add: sorted_wrt_map)
  then have "\<forall>a\<in>set (take 5 xs). \<forall>b\<in>set (drop 5 xs). snd b \<le> snd a"
    by (simp only: sorted_wrt_append) blast
  with m show "\<forall>e\<in>set (leaderboard_data now d). window_karma now d u \<le> snd e"
    unfolding data by force
qed

lemma leaderboard_rows_subset:
  "(u, k, rank) \<in> set (leaderboard_rows now d) \<Longrightarrow> (u, k) \<in> set (leaderboard_data now d)"
proof -
  assume "(u, k, rank) \<in> set (leaderboard_rows now d)"
  then obtain re where re: "re \<in> set (enumerate 1 (leaderboard_data now d))"
      "u = fst (snd re)" "k = snd (snd re)"
    by (auto simp: leaderboard_rows_eq)
  from re(1) have i: "fst re - 1 < length (leaderboard_data now d)"
      "leaderboard_data now d ! (fst re - 1) = snd re"
    by (auto simp: in_set_enumerate_eq)
  from nth_mem[OF i(1)] i(2) re(2,3) show ?thesis by simp
qed

lemma leaderboard_rows_all:
  assumes "recipients_exist d"
  shows "leaderboard_rows now d =
           map (\<lambda>re. (fst (snd re), snd (snd re), fst re)) (enumerate 1 (leaderboard_data now d))"
proof -
  have "fst (snd re) \<in> u_id ` set (db_users d)"
    if "re \<in> set (enumerate 1 (leaderboard_data now d))" for re
  proof -
    from that have i: "fst re - 1 < length (leaderboard_data now d)"
        "leaderboard_data now d ! (fst re - 1) = snd re"
      by (auto simp: in_set_enumerate_eq)
    from nth_mem[OF i(1)] i(2) have "(fst (snd re), snd (snd re)) \<in> set (leaderboard_data now d)"
      by simp
    from leaderboard_data_set(3)[OF this] obtain t where
      "t \<in> set (db_karma_transactions d)" "k_user_id t = fst (snd re)"
      by blast
    with assms have "get_user (fst (snd re)) d \<noteq> None"
      by (auto simp: recipients_exist_def list_all_iff)
    then obtain usr where "get_user (fst (snd re)) d = Some usr" by blast
    then have "usr \<in> set (db_users d) \<and> u_id usr = fst (snd re)"
      unfolding get_user_def by (auto dest: find_key)
    then show ?thesis by force
  qed
  then have "filter (\<lambda>re. fst (snd re) \<in> u_id ` set (db_users d))
                 (enumerate 1 (leaderboard_data now d)) = enumerate 1 (leaderboard_data now d)"
    by (simp add: filter_id_conv)
  then show ?thesis by (simp add: leaderboard_rows_eq)
qed

lemma leaderboard_rows_sorted:
  "sorted_wrt (\<lambda>a b. fst (snd b) \<le> fst (snd a)) (leaderboard_rows now d)"
proof -
  have "sorted_wrt (\<lambda>a b. snd (snd b) \<le> snd (snd a)) (enumerate 1 (leaderboard_data now d)) =
        sorted_wrt (\<lambda>a b. snd b \<le> snd a) (map snd (enumerate 1 (leaderboard_data now d)))"
    by (simp only: sorted_wrt_map)
  also have "\<dots> = sorted_wrt (\<lambda>a b. snd b \<le> snd a) (leaderboard_data now d)" by simp
  finally have "sorted_wrt (\<lambda>a b. snd (snd b) \<le> snd (snd a)) (enumerate 1 (leaderboard_data now d))"
    using leaderboard_data_sorted by simp
  then have "sorted_wrt (\<lambda>a b. snd (snd b) \<le> snd (snd a))
      (filter (\<lambda>re. fst (snd re) \<in> u_id ` set (db_users d)) (enumerate 1 (leaderboard_data now d)))"
    by (rule sorted_wrt_filter)
  then show ?thesis by (simp add: leaderboard_rows_eq sorted_wrt_map)
qed

lemma leaderboard_rows_length: "length (leaderboard_rows now d) \<le> 5"
proof -
  have "length (leaderboard_rows now d) \<le> length (enumerate 1 (leaderboard_data now d))"
    unfolding leaderboard_rows_eq length_map by (rule length_filter_le)
  with leaderboard_data_length[of now d] show ?thesis by simp
qed

lemma leaderboard_rows_distinct: "distinct (map fst (leaderboard_rows now d))"
proof -
  have "distinct (map (fst \<circ> snd) (enumerate 1 (leaderboard_data now d)))"
    using leaderboard_data_distinct[of now d] by (simp add: map_map[symmetric] del: map_map)
  then have "distinct (map (fst \<circ> snd)
      (filter (\<lambda>re. fst (snd re) \<in> u_id ` set (db_users d)) (enumerate 1 (leaderboard_data now d))))"
    by (rule distinct_map_filter)
  then show ?thesis by (simp add: leaderboard_rows_eq comp_def)
qed

section \<open>The leaderboard examples, evaluated\<close>

lemma example_leaderboard:
  "leaderboard_rows (timedelta_hours 100) leaderboard_example =
     [(2, 30, 1), (1, 25, 2), (3, 10, 3)]"
  by code_simp

lemma example_leaderboard_recached:
  "leaderboard_rows (timedelta_hours 100) leaderboard_example_recached =
     [(2, 30, 1), (1, 25, 2), (3, 10, 3)]"
  by code_simp

lemma example_cap:
  "leaderboard_rows (timedelta_hours 100) cap_example =
     [(7, 35, 1), (6, 30, 2), (5, 25, 3), (4, 20, 4), (3, 15, 5)]"
  by code_simp

lemma example_window_karma:
  "window_karma (timedelta_hours 100) leaderboard_example 1 = 25"
  "window_karma (timedelta_hours 100) leaderboard_example 2 = 30"
  "window_karma (timedelta_hours 100) leaderboard_example 3 = 10"
  "window_karma (timedelta_hours 100) leaderboard_example 4 = 0"
  "karma_sum 3 leaderboard_example = 60"
  "karma_sum 4 leaderboard_example = 5"
  by code_simp+

lemma example_cap_karma:
  "window_karma (timedelta_hours 100) cap_example 8 = 0"
  "window_karma (timedelta_hours 100) cap_example 1 = 5"
  "window_karma (timedelta_hours 100) cap_example 2 = 10"
  "recipients_exist cap_example"
  "recipients_exist leaderboard_example"
  by code_simp+

text \<open>
  C6. Every row of the leaderboard carries, as its karma, the sum of the amounts of
  the transactions that credit its actor and were created at or after the time 24
  hours before now. Transactions older than that contribute nothing: the leaderboard of
  the store is the leaderboard of the store without them. For an actor all of whose
  transactions are older, the annotation \<^verbatim>\<open>Coalesce(Sum('amount'), 0)\<close> over the rows of
  the window is 0, as the sum is, and the actor is not on the leaderboard.
\<close>

theorem leaderboard_window_sum:
  "(\<forall>row\<in>set (leaderboard_rows now d). fst (snd row) = window_karma now d (fst row)) \<and>
   leaderboard_rows now
     (d\<lparr>db_karma_transactions :=
          filter (\<lambda>t. now - timedelta_hours 24 \<le> k_created_at t) (db_karma_transactions d)\<rparr>)
     = leaderboard_rows now d \<and>
   ((\<forall>t\<in>set (db_karma_transactions d).
        k_user_id t = u \<longrightarrow> k_created_at t < now - timedelta_hours 24) \<longrightarrow>
      karma_24h (filter (\<lambda>t. now - timedelta_hours 24 \<le> k_created_at t)
                        (db_karma_transactions d)) u = 0 \<and>
      window_karma now d u = 0 \<and>
      u \<notin> fst ` set (leaderboard_rows now d))"
proof (intro conjI ballI impI)
  fix row assume "row \<in> set (leaderboard_rows now d)"
  then have "(fst row, fst (snd row), snd (snd row)) \<in> set (leaderboard_rows now d)" by simp
  then have "(fst row, fst (snd row)) \<in> set (leaderboard_data now d)"
    by (rule leaderboard_rows_subset)
  then show "fst (snd row) = window_karma now d (fst row)"
    by (rule leaderboard_data_set(1))
next
  let ?d = "d\<lparr>db_karma_transactions :=
          filter (\<lambda>t. now - timedelta_hours 24 \<le> k_created_at t) (db_karma_transactions d)\<rparr>"
  have "leaderboard_data now ?d = leaderboard_data now d"
    by (simp add: leaderboard_data_def)
  then show "leaderboard_rows now ?d = leaderboard_rows now d"
    by (simp add: leaderboard_rows_eq)
next
  assume old: "\<forall>t\<in>set (db_karma_transactions d).
        k_user_id t = u \<longrightarrow> k_created_at t < now - timedelta_hours 24"
  then have e: "filter (\<lambda>t. k_user_id t = u \<and> now - timedelta_hours 24 \<le> k_created_at t)
                  (db_karma_transactions d) = []"
    by (auto simp: filter_empty_conv)
  then show w: "window_karma now d u = 0" by (simp add: window_karma_def)
  then show "karma_24h (filter (\<lambda>t. now - timedelta_hours 24 \<le> k_created_at t)
                        (db_karma_transactions d)) u = 0"
    by (simp add: karma_24h_window)
  show "u \<notin> fst ` set (leaderboard_rows now d)"
  proof
    assume "u \<in> fst ` set (leaderboard_rows now d)"
    then obtain k rank where "(u, k, rank) \<in> set (leaderboard_rows now d)" by force
    then have "(u, k) \<in> set (leaderboard_data now d)" by (rule leaderboard_rows_subset)
    from leaderboard_data_set(1,2)[OF this] w show False by simp
  qed
qed

theorem leaderboard_window_sum_witness:
  "leaderboard_rows (timedelta_hours 100) leaderboard_example =
     [(2, 30, 1), (1, 25, 2), (3, 10, 3)] \<and>
   window_karma (timedelta_hours 100) leaderboard_example 2 = 30 \<and>
   window_karma (timedelta_hours 100) leaderboard_example 1 = 25 \<and>
   window_karma (timedelta_hours 100) leaderboard_example 3 = 10 \<and>
   karma_sum 3 leaderboard_example = 60 \<and>
   filter (\<lambda>t. k_user_id t = 4) (db_karma_transactions leaderboard_example) = [karma_at 4 5 50] \<and>
   k_created_at (karma_at 4 5 50) < timedelta_hours 100 - timedelta_hours 24 \<and>
   karma_sum 4 leaderboard_example = 5 \<and>
   window_karma (timedelta_hours 100) leaderboard_example 4 = 0 \<and>
   4 \<notin> fst ` set (leaderboard_rows (timedelta_hours 100) leaderboard_example)"
proof -
  have old: "\<forall>t\<in>set (db_karma_transactions leaderboard_example).
        k_user_id t = 4 \<longrightarrow> k_created_at t < timedelta_hours 100 - timedelta_hours 24"
    by code_simp
  have f: "filter (\<lambda>t. k_user_id t = 4) (db_karma_transactions leaderboard_example) =
        [karma_at 4 5 50]"
    by code_simp
  have c: "k_created_at (karma_at 4 5 50) < timedelta_hours 100 - timedelta_hours 24"
    by code_simp
  from leaderboard_window_sum[of "timedelta_hours 100" leaderboard_example 4] old
  have "window_karma (timedelta_hours 100) leaderboard_example 4 = 0 \<and>
        4 \<notin> fst ` set (leaderboard_rows (timedelta_hours 100) leaderboard_example)"
    by blast
  with example_leaderboard example_window_karma f c show ?thesis by simp
qed

text \<open>
  C7. No recipient whose sum over the window is 0 or less is on the leaderboard; the
  rows are in descending order of karma; there are at most five; no actor is there
  twice. When every recipient of a transaction is a user, as the foreign key has it,
  the ranks are 1, 2, ... in the order of the rows, and a recipient with a positive sum
  is missing only when there are five rows, each with at least that sum.
\<close>

theorem leaderboard_shape:
  "(window_karma now d u \<le> 0 \<longrightarrow> u \<notin> fst ` set (leaderboard_rows now d)) \<and>
   sorted_wrt (\<lambda>a b. fst (snd b) \<le> fst (snd a)) (leaderboard_rows now d) \<and>
   length (leaderboard_rows now d) \<le> 5 \<and>
   distinct (map fst (leaderboard_rows now d)) \<and>
   (recipients_exist d \<longrightarrow>
      map (\<lambda>row. snd (snd row)) (leaderboard_rows now d) =
        [1..<Suc (length (leaderboard_rows now d))] \<and>
      (0 < window_karma now d u \<and> u \<notin> fst ` set (leaderboard_rows now d) \<longrightarrow>
         length (leaderboard_rows now d) = 5 \<and>
         (\<forall>row\<in>set (leaderboard_rows now d). window_karma now d u \<le> fst (snd row))))"
proof (intro conjI impI)
  assume np: "window_karma now d u \<le> 0"
  show "u \<notin> fst ` set (leaderboard_rows now d)"
  proof
    assume "u \<in> fst ` set (leaderboard_rows now d)"
    then obtain k rank where "(u, k, rank) \<in> set (leaderboard_rows now d)" by force
    then have "(u, k) \<in> set (leaderboard_data now d)" by (rule leaderboard_rows_subset)
    from leaderboard_data_set(1,2)[OF this] np show False by simp
  qed
next
  show "sorted_wrt (\<lambda>a b. fst (snd b) \<le> fst (snd a)) (leaderboard_rows now d)"
    by (rule leaderboard_rows_sorted)
  show "length (leaderboard_rows now d) \<le> 5" by (rule leaderboard_rows_length)
  show "distinct (map fst (leaderboard_rows now d))" by (rule leaderboard_rows_distinct)
next
  assume fk: "recipients_exist d"
  note all = leaderboard_rows_all[OF fk, of now]
  have "map (\<lambda>row. snd (snd row)) (leaderboard_rows now d) =
          map fst (enumerate 1 (leaderboard_data now d))"
    unfolding all by (simp add: comp_def)
  also have "\<dots> = [1..<Suc (length (leaderboard_data now d))]" by simp
  also have "length (leaderboard_data now d) = length (leaderboard_rows now d)"
    unfolding all by simp
  finally show "map (\<lambda>row. snd (snd row)) (leaderboard_rows now d) =
        [1..<Suc (length (leaderboard_rows now d))]" .
next
  assume fk: "recipients_exist d"
    and pu: "0 < window_karma now d u \<and> u \<notin> fst ` set (leaderboard_rows now d)"
  note all = leaderboard_rows_all[OF fk, of now]
  have fsts: "fst ` set (leaderboard_rows now d) = fst ` set (leaderboard_data now d)"
  proof -
    have "map fst (leaderboard_rows now d) = map fst (map snd (enumerate 1 (leaderboard_data now d)))"
      unfolding all by (simp add: comp_def del: map_snd_enumerate)
    then have "map fst (leaderboard_rows now d) = map fst (leaderboard_data now d)" by simp
    then have "set (map fst (leaderboard_rows now d)) = set (map fst (leaderboard_data now d))"
      by simp
    then show ?thesis by simp
  qed
  from pu fsts have n: "u \<notin> fst ` set (leaderboard_data now d)" by simp
  note top = leaderboard_data_top[OF conjunct1[OF pu] n]
  show "length (leaderboard_rows now d) = 5" using top(1) unfolding all by simp
  show "\<forall>row\<in>set (leaderboard_rows now d). window_karma now d u \<le> fst (snd row)"
  proof
    fix row assume "row \<in> set (leaderboard_rows now d)"
    then have "(fst row, fst (snd row), snd (snd row)) \<in> set (leaderboard_rows now d)" by simp
    then have "(fst row, fst (snd row)) \<in> set (leaderboard_data now d)"
      by (rule leaderboard_rows_subset)
    with top(2) show "window_karma now d u \<le> fst (snd row)" by force
  qed
qed

theorem leaderboard_shape_witness:
  "leaderboard_rows (timedelta_hours 100) cap_example =
     [(7, 35, 1), (6, 30, 2), (5, 25, 3), (4, 20, 4), (3, 15, 5)] \<and>
   window_karma (timedelta_hours 100) cap_example 8 = 0 \<and>
   8 \<notin> fst ` set (leaderboard_rows (timedelta_hours 100) cap_example) \<and>
   recipients_exist cap_example \<and>
   window_karma (timedelta_hours 100) cap_example 2 = 10 \<and>
   2 \<notin> fst ` set (leaderboard_rows (timedelta_hours 100) cap_example) \<and>
   length (leaderboard_rows (timedelta_hours 100) cap_example) = 5 \<and>
   map (\<lambda>row. snd (snd row)) (leaderboard_rows (timedelta_hours 100) cap_example) =
     [1, 2, 3, 4, 5]"
proof -
  have n2: "2 \<notin> fst ` set (leaderboard_rows (timedelta_hours 100) cap_example)"
    by (simp add: example_cap)
  from leaderboard_shape[of "timedelta_hours 100" cap_example 8] example_cap_karma(1)
  have a: "8 \<notin> fst ` set (leaderboard_rows (timedelta_hours 100) cap_example)"
    by simp
  from leaderboard_shape[of "timedelta_hours 100" cap_example 2] example_cap_karma(3,4) n2
  have b: "length (leaderboard_rows (timedelta_hours 100) cap_example) = 5"
    by simp
  from a b n2 example_cap example_cap_karma show ?thesis by simp
qed

text \<open>
  C9. The leaderboard does not read \<^verbatim>\<open>total_karma\<close>: two stores with the same
  transactions and the same user keys, whatever else their users hold, give the same
  sequence of (actor, karma, rank).
\<close>

theorem leaderboard_ignores_total_karma:
  assumes "db_karma_transactions d = db_karma_transactions d'"
    and "map u_id (db_users d) = map u_id (db_users d')"
  shows "leaderboard_rows now d = leaderboard_rows now d'"
proof -
  have "leaderboard_data now d = leaderboard_data now d'"
    using assms(1) by (rule leaderboard_data_cong)
  moreover have "u_id ` set (db_users d) = u_id ` set (db_users d')"
  proof -
    have "set (map u_id (db_users d)) = set (map u_id (db_users d'))"
      using assms(2) by simp
    then show ?thesis by simp
  qed
  ultimately show ?thesis by (simp add: leaderboard_rows_eq)
qed

theorem leaderboard_ignores_total_karma_witness:
  "db_karma_transactions leaderboard_example =
     db_karma_transactions leaderboard_example_recached \<and>
   map u_id (db_users leaderboard_example) =
     map u_id (db_users leaderboard_example_recached) \<and>
   map u_total_karma (db_users leaderboard_example) = [1000, 500, 2000, 0] \<and>
   map u_total_karma (db_users leaderboard_example_recached) = [0, 7, 1, 90000] \<and>
   leaderboard_rows (timedelta_hours 100) leaderboard_example =
     [(2, 30, 1), (1, 25, 2), (3, 10, 3)] \<and>
   leaderboard_rows (timedelta_hours 100) leaderboard_example_recached =
     [(2, 30, 1), (1, 25, 2), (3, 10, 3)]"
proof -
  have h1: "db_karma_transactions leaderboard_example =
     db_karma_transactions leaderboard_example_recached"
    by (simp add: leaderboard_example_recached_def)
  have h2: "map u_id (db_users leaderboard_example) =
     map u_id (db_users leaderboard_example_recached)"
    by (simp add: leaderboard_example_recached_def leaderboard_example_def)
  have k: "map u_total_karma (db_users leaderboard_example) = [1000, 500, 2000, 0]"
      "map u_total_karma (db_users leaderboard_example_recached) = [0, 7, 1, 90000]"
    by (simp_all add: leaderboard_example_recached_def leaderboard_example_def)
  from leaderboard_ignores_total_karma[OF h1 h2, of "timedelta_hours 100"]
    example_leaderboard h1 h2 k
  show ?thesis by simp
qed

end
